theory Spec2Isabelle
  imports Complex_Main
begin

section \<open>Strings\<close>

text \<open>
  Python strings are modelled as \<open>string\<close>, the bytes of their UTF-8 text.
  \<open>str.lower\<close> is modelled on the ASCII letters; every pattern of the program
  is ASCII text, and a byte outside ASCII never equals a byte of a pattern.
\<close>

definition lower_char :: "char \<Rightarrow> char" where
  "lower_char c =
     (let n = (of_char c :: nat)
      in if 65 \<le> n \<and> n \<le> 90 then char_of (n + 32) else c)"

definition lower :: "string \<Rightarrow> string" where
  "lower s = map lower_char s"

text \<open>The operator \<open>p in s\<close> on strings: \<open>p\<close> occurs in \<open>s\<close> as a contiguous run.\<close>

fun str_in :: "string \<Rightarrow> string \<Rightarrow> bool" where
  "str_in p [] = (p = [])"
| "str_in p (c # cs) = (take (length p) (c # cs) = p \<or> str_in p cs)"

text \<open>
  Python counts a string in code points. A code point of UTF-8 text is a
  byte that is no continuation byte, followed by its continuation bytes.
\<close>

definition is_continuation :: "char \<Rightarrow> bool" where
  "is_continuation c = (let n = (of_char c :: nat) in 128 \<le> n \<and> n < 192)"

fun code_points :: "string \<Rightarrow> string list" where
  "code_points [] = []"
| "code_points (c # cs) =
     (if cs \<noteq> [] \<and> is_continuation (hd cs)
      then (case code_points cs of
              [] \<Rightarrow> [[c]]
            | cp # cps \<Rightarrow> (c # cp) # cps)
      else [c] # code_points cs)"

text \<open>The slice \<open>s[:n]\<close>.\<close>

definition take_code_points :: "nat \<Rightarrow> string \<Rightarrow> string" where
  "take_code_points n s = concat (take n (code_points s))"

section \<open>Login detection patterns\<close>

definition LOGIN_URL_PATTERNS :: "string list" where
  "LOGIN_URL_PATTERNS =
     [''login'', ''signin'', ''sign-in'', ''sign_in'',
      ''auth'', ''authenticate'', ''oauth'',
      ''signup'']"

definition LOGIN_PAGE_INDICATORS :: "string list" where
  "LOGIN_PAGE_INDICATORS =
     [''password'', ''email'', ''username'', ''sign in'', ''log in'',
      ''forgot password'', ''create account'', ''register'', ''signup'']"

text \<open>
  \<open>is_login_page\<close>: the two \<open>for\<close> loops return \<open>True\<close> at the first pattern
  found, the function returns \<open>False\<close> after both.
\<close>

fun any_in :: "string list \<Rightarrow> string \<Rightarrow> bool" where
  "any_in [] s = False"
| "any_in (pattern # rest) s = (if str_in pattern s then True else any_in rest s)"

definition is_login_page :: "string \<Rightarrow> string \<Rightarrow> bool" where
  "is_login_page url title =
     (let url_lower = lower url;
          title_lower = lower title
      in if any_in LOGIN_URL_PATTERNS url_lower then True
         else if any_in LOGIN_PAGE_INDICATORS title_lower then True
         else False)"

text \<open>
  The specification's wording, for comparison: a text contains a pattern
  case-insensitively when the folded pattern occurs inside the folded text.
\<close>

definition ci_contains :: "string \<Rightarrow> string \<Rightarrow> bool" where
  "ci_contains s p = (\<exists>pre suf. lower s = pre @ lower p @ suf)"

section \<open>Numbers as text\<close>

fun digits :: "nat \<Rightarrow> string" where
  "digits n =
     (if n < 10 then [char_of (48 + n)]
      else digits (n div 10) @ [char_of (48 + n mod 10)])"

declare digits.simps [simp del]

text \<open>\<open>str(n)\<close> and the format \<open>{n:03d}\<close> of an integer.\<close>

definition str_int :: "int \<Rightarrow> string" where
  "str_int n = (if n < 0 then ''-'' @ digits (nat (- n)) else digits (nat n))"

definition fmt_03d :: "int \<Rightarrow> string" where
  "fmt_03d n =
     (let sign = (if n < 0 then ''-'' else []);
          d = digits (nat \<bar>n\<bar>)
      in sign @ replicate (3 - length sign - length d) (CHR ''0'') @ d)"

definition nl :: string where
  "nl = [CHR 0x0A]"

section \<open>Dataset schema\<close>

text \<open>
  A \<open>datetime\<close> is a point of the time line, in microseconds. The fields
  \<open>timestamp\<close>, \<open>started_at\<close> and \<open>completed_at\<close> hold the \<open>isoformat()\<close> text
  of a datetime, which \<open>fromisoformat\<close> reads back unchanged; the model
  keeps the datetime itself. A duration in seconds is the exact quotient.
\<close>

type_synonym datetime = int
type_synonym bytes = string
type_synonym path = string

record CapturedStep =
  step_number :: int
  timestamp :: datetime
  action_type :: string
  action_description :: string
  url :: string
  page_title :: string
  screenshot :: string
  duration_ms :: "real option"
  success :: bool
  error_message :: "string option"
  required_manual_login :: bool

record CapturedWorkflow =
  task_id :: string
  original_query :: string
  transformed_task :: string
  app_name :: string
  app_url :: string
  started_at :: datetime
  completed_at :: "datetime option"
  total_duration_seconds :: "real option"
  success :: bool
  steps :: "CapturedStep list"
  final_result :: "string option"
  error_summary :: "string option"

section \<open>Configuration\<close>

type_synonym app_config = "(string \<times> string) list"

definition dict_get :: "app_config \<Rightarrow> string \<Rightarrow> string \<Rightarrow> string" where
  "dict_get d k dflt = (case map_of d k of Some v \<Rightarrow> v | None \<Rightarrow> dflt)"

definition APP_CONFIG :: "(string \<times> app_config) list" where
  "APP_CONFIG =
     [(''linear'', [(''url'', ''https://linear.app''), (''name'', ''Linear'')]),
      (''notion'', [(''url'', ''https://notion.so''), (''name'', ''Notion'')]),
      (''asana'', [(''url'', ''https://app.asana.com''), (''name'', ''Asana'')]),
      (''github'', [(''url'', ''https://github.com''), (''name'', ''GitHub'')])]"

fun first_app :: "(string \<times> app_config) list \<Rightarrow> string \<Rightarrow> (string \<times> app_config) option" where
  "first_app [] input_lower = None"
| "first_app ((app_key, config) # rest) input_lower =
     (if str_in app_key input_lower then Some (app_key, config)
      else first_app rest input_lower)"

definition detect_app :: "string \<Rightarrow> string \<times> app_config" where
  "detect_app user_input =
     (let input_lower = lower user_input
      in case first_app APP_CONFIG input_lower of
           Some r \<Rightarrow> r
         | None \<Rightarrow> (''unknown'', [(''url'', []), (''name'', ''Unknown'')]))"

definition transform_to_action_task :: "string \<Rightarrow> app_config \<Rightarrow> string" where
  "transform_to_action_task user_input app_config =
     (let app_url = dict_get app_config ''url'' [];
          app_name = dict_get app_config ''name'' ''the application''
      in ''TASK: '' @ user_input @ nl
         @ nl
         @ ''INSTRUCTIONS:'' @ nl
         @ ''1. Navigate to '' @ app_url @ '' if not already there'' @ nl
         @ ''2. Perform the requested action by interacting with the UI directly'' @ nl
         @ nl
         @ ''CONSTRAINTS:'' @ nl
         @ ''- ONLY interact with '' @ app_name @ '' UI'' @ nl
         @ ''- NEVER search the web or open documentation  '' @ nl
         @ ''- NEVER navigate away from '' @ app_name @ '' domains'' @ nl
         @ ''- If you know that completing this task would require logging in, navigate there first'' @ nl
         @ ''- If you see a login page, STOP and wait - the user will log in manually'' @ nl
         @ nl
         @ ''COMPLETION: Task is complete when the requested action has been performed.'')"

section \<open>The environment of the program\<close>

text \<open>
  An exception is modelled by its class and its \<open>str()\<close> text. Every
  exception of the model is an instance of \<open>Exception\<close>, the class the
  handlers of the program catch.
\<close>

datatype exn = Exception string | ValueError string

fun str_exn :: "exn \<Rightarrow> string" where
  "str_exn (Exception m) = m"
| "str_exn (ValueError m) = m"

text \<open>
  What the program observes of an object of the driver: its \<open>name\<close>
  attribute if it has one, the name of its type, its \<open>str()\<close> text and,
  for a non-empty list, its first item.
\<close>

datatype pyobj =
  PyObj (name_attr: "string option") (type_name: string) (str_text: string)
        (first_item: "pyobj option")

text \<open>The result of the screenshot event: \<open>bytes\<close>, \<open>str\<close>, or another object given by its \<open>str()\<close>.\<close>

datatype shot = ShotBytes bytes | ShotStr string | ShotOther string

text \<open>
  What the driver and the operating system answer during one call of
  \<open>on_step_end\<close>. A call that can raise answers with \<open>Inl\<close> of the
  exception, or with \<open>Some\<close> of it when it returns nothing.
\<close>

record step_env =
  get_browser_state_summary :: "exn + string option"
  get_current_page_title :: "exn + string option"
  agent_pause :: "exn option"
  read_input :: "exn option"
  agent_resume :: "exn option"
  screenshot_result :: "exn + shot"
  b64decode :: "string \<Rightarrow> exn + bytes"
  write_bytes :: "exn option"
  model_actions :: "exn + pyobj list"
  now_duration :: datetime
  now_timestamp :: datetime

text \<open>The effects of the program on the outside, in the order they happen.\<close>

datatype effect =
    Print string
  | Pause
  | Input
  | Resume
  | Mkdir path
  | WriteBytes path bytes
  | WriteText path CapturedWorkflow
  | Sleep nat
  | BrowserKill

section \<open>Capture hook with login detection\<close>

text \<open>
  The state shared by the two hooks: the dictionary \<open>step_data\<close>, the
  workflow they append to, and the effects so far.
\<close>

record hook_state =
  count :: int
  step_start_time :: "datetime option"
  login_handled :: bool
  waiting_for_login :: bool
  workflow :: CapturedWorkflow
  effects :: "effect list"

definition emit :: "effect \<Rightarrow> hook_state \<Rightarrow> hook_state" where
  "emit x s = s\<lparr>effects := effects s @ [x]\<rparr>"

definition append_step :: "CapturedStep \<Rightarrow> hook_state \<Rightarrow> hook_state" where
  "append_step r s = s\<lparr>workflow := (workflow s)\<lparr>steps := steps (workflow s) @ [r]\<rparr>\<rparr>"

definition create_capture_hook :: "CapturedWorkflow \<Rightarrow> effect list \<Rightarrow> hook_state" where
  "create_capture_hook w fx =
     \<lparr>count = 0, step_start_time = None, login_handled = False,
      waiting_for_login = False, workflow = w, effects = fx\<rparr>"

definition on_step_start :: "datetime \<Rightarrow> hook_state \<Rightarrow> hook_state" where
  "on_step_start now s = s\<lparr>step_start_time := Some now\<rparr>"

text \<open>The notice printed to the operator when a login page is detected.\<close>

definition login_notice :: "string \<Rightarrow> string \<Rightarrow> hook_state \<Rightarrow> hook_state" where
  "login_notice current_url current_title s =
     s\<lparr>effects := effects s @
        [Print (nl @ replicate 60 (CHR ''='')),
         Print ''LOGIN PAGE DETECTED'',
         Print (replicate 60 (CHR ''='')),
         Print (''   URL: '' @ current_url),
         Print (''   Title: '' @ current_title),
         Print (nl @ ''   Please log in manually in the browser window.''),
         Print ''   Press ENTER here when you are done logging in.'',
         Print (replicate 60 (CHR ''='') @ nl)]\<rparr>"

text \<open>The record of a manual login; \<open>duration_ms\<close>, \<open>success\<close> and \<open>error_message\<close> take their defaults.\<close>

definition manual_login_step :: "int \<Rightarrow> datetime \<Rightarrow> string \<Rightarrow> string \<Rightarrow> CapturedStep" where
  "manual_login_step step_num now current_url current_title =
     \<lparr>step_number = step_num,
      timestamp = now,
      action_type = ''manual_login'',
      action_description = ''User manually logged in'',
      url = current_url,
      page_title = current_title,
      screenshot = [],
      duration_ms = None,
      CapturedStep.success = True,
      error_message = None,
      required_manual_login = True\<rparr>"

text \<open>
  The branch of \<open>on_step_end\<close> taken on a login page while the latch is
  unset. Like every part of the \<open>try\<close> body it returns the exception
  raised, if any, and the state reached at that point.
\<close>

definition manual_login ::
  "step_env \<Rightarrow> int \<Rightarrow> string \<Rightarrow> string \<Rightarrow> hook_state \<Rightarrow> exn option \<times> hook_state" where
  "manual_login env step_num current_url current_title s =
     (let s1 = s\<lparr>waiting_for_login := True\<rparr>;
          s2 = login_notice current_url current_title s1
      in case agent_pause env of
           Some e \<Rightarrow> (Some e, s2)
         | None \<Rightarrow>
             (let s3 = emit Pause s2
              in case read_input env of
                   Some e \<Rightarrow> (Some e, s3)
                 | None \<Rightarrow>
                     (let s4 = emit Input s3
                      in case agent_resume env of
                           Some e \<Rightarrow> (Some e, s4)
                         | None \<Rightarrow>
                             (let s5 = emit Resume s4;
                                  s6 = s5\<lparr>login_handled := True\<rparr>;
                                  s7 = s6\<lparr>waiting_for_login := False\<rparr>;
                                  s8 = emit (Print (''Login completed. Resuming agent.'' @ nl)) s7
                              in (None,
                                  append_step
                                    (manual_login_step step_num (now_timestamp env)
                                       current_url current_title) s8)))))"

text \<open>The bytes of the screenshot: as they are, or decoded from the text.\<close>

definition screenshot_bytes_of :: "step_env \<Rightarrow> shot \<Rightarrow> exn + bytes" where
  "screenshot_bytes_of env result =
     (case result of
        ShotBytes b \<Rightarrow> Inr b
      | ShotStr t \<Rightarrow> b64decode env t
      | ShotOther t \<Rightarrow> b64decode env t)"

text \<open>The label and the description of the last action of the history.\<close>

definition action_label :: "pyobj list \<Rightarrow> string \<times> string" where
  "action_label actions =
     (if actions \<noteq> [] then
        (let last0 = last actions;
             last1 = (case first_item last0 of Some x \<Rightarrow> x | None \<Rightarrow> last0)
         in ((case name_attr last1 of Some n \<Rightarrow> n | None \<Rightarrow> type_name last1),
             take_code_points 200 (str_text last1)))
      else (''initial'', ''Initial state''))"

text \<open>The record of a captured step; \<open>success\<close>, \<open>error_message\<close> and \<open>required_manual_login\<close> take their defaults.\<close>

definition captured_step ::
  "int \<Rightarrow> datetime \<Rightarrow> string \<times> string \<Rightarrow> string \<Rightarrow> string \<Rightarrow> string \<Rightarrow> real option
   \<Rightarrow> CapturedStep" where
  "captured_step step_num now labelled current_url current_title filename duration =
     \<lparr>step_number = step_num,
      timestamp = now,
      action_type = fst labelled,
      action_description = snd labelled,
      url = current_url,
      page_title = current_title,
      screenshot = filename,
      duration_ms = duration,
      CapturedStep.success = True,
      error_message = None,
      required_manual_login = False\<rparr>"

text \<open>The rest of the \<open>try\<close> body: screenshot, action label, duration, record.\<close>

definition capture_step ::
  "path \<Rightarrow> step_env \<Rightarrow> int \<Rightarrow> string \<Rightarrow> string \<Rightarrow> hook_state \<Rightarrow> exn option \<times> hook_state" where
  "capture_step output_dir env step_num current_url current_title s =
     (case screenshot_result env of
        Inl e \<Rightarrow> (Some e, s)
      | Inr result \<Rightarrow>
          (case screenshot_bytes_of env result of
             Inl e \<Rightarrow> (Some e, s)
           | Inr screenshot_bytes \<Rightarrow>
               (let filename = ''step_'' @ fmt_03d step_num @ ''.png''
                in case write_bytes env of
                     Some e \<Rightarrow> (Some e, s)
                   | None \<Rightarrow>
                       (let s1 = emit (WriteBytes (output_dir @ ''/'' @ filename) screenshot_bytes) s
                        in case model_actions env of
                             Inl e \<Rightarrow> (Some e, s1)
                           | Inr actions \<Rightarrow>
                               (let labelled = action_label actions;
                                    duration =
                                      (case step_start_time s1 of
                                         None \<Rightarrow> None
                                       | Some t0 \<Rightarrow>
                                           Some (real_of_int (now_duration env - t0) / 1000000 * 1000));
                                    s2 = append_step
                                           (captured_step step_num (now_timestamp env) labelled
                                              current_url current_title filename duration) s1
                                in (None,
                                    emit (Print (''Step '' @ str_int step_num @ '': '' @ fst labelled)) s2))))))"

text \<open>
  The two defaults of the observation: \<open>state.url if state else "unknown"\<close>
  and \<open>title or "untitled"\<close>.
\<close>

definition current_url_of :: "string option \<Rightarrow> string" where
  "current_url_of state = (case state of Some u \<Rightarrow> u | None \<Rightarrow> ''unknown'')"

definition current_title_of :: "string option \<Rightarrow> string" where
  "current_title_of t =
     (case t of Some x \<Rightarrow> if x = [] then ''untitled'' else x | None \<Rightarrow> ''untitled'')"

text \<open>The body of the \<open>try\<close> statement of \<open>on_step_end\<close>.\<close>

definition try_capture ::
  "path \<Rightarrow> step_env \<Rightarrow> int \<Rightarrow> hook_state \<Rightarrow> exn option \<times> hook_state" where
  "try_capture output_dir env step_num s =
     (case get_browser_state_summary env of
        Inl e \<Rightarrow> (Some e, s)
      | Inr state \<Rightarrow>
          (let current_url = current_url_of state
           in case get_current_page_title env of
                Inl e \<Rightarrow> (Some e, s)
              | Inr t \<Rightarrow>
                  (let current_title = current_title_of t
                   in if is_login_page current_url current_title \<and> \<not> login_handled s
                      then manual_login env step_num current_url current_title s
                      else capture_step output_dir env step_num current_url current_title s)))"

text \<open>
  \<open>on_step_end\<close>: the counter is advanced before the \<open>try\<close>; the handler
  prints the exception and the hook returns.
\<close>

definition on_step_end :: "path \<Rightarrow> step_env \<Rightarrow> hook_state \<Rightarrow> hook_state" where
  "on_step_end output_dir env s0 =
     (let s = s0\<lparr>count := count s0 + 1\<rparr>;
          step_num = count s
      in case try_capture output_dir env step_num s of
           (None, s') \<Rightarrow> s'
         | (Some e, s') \<Rightarrow> emit (Print (''Capture error: '' @ str_exn e)) s')"

section \<open>Main execution\<close>

text \<open>
  The driver's \<open>agent.run\<close> is outside the program. What the program sees of
  it is the sequence of its calls of the two hooks and then its outcome:
  it raises, or it returns a result. Of the result the program uses its
  truth value and its \<open>str()\<close> text, both computed by the driver's class.
\<close>

datatype hook_event = StepStart datetime | StepEnd step_env

record agent_result =
  truthy :: "exn + bool"
  str_result :: "exn + string"

text \<open>
  What the outside answers during one call of \<open>execute_task\<close>, in the
  order of the calls: the credential, the clock at each reading, Python's
  \<open>str.isalnum\<close> on a code point outside ASCII, the creation of the output
  directory and of the agent, the driver's run, and the writing of the
  trace. The run can also be cut by an exception outside \<open>Exception\<close>
  (\<open>KeyboardInterrupt\<close>, \<open>CancelledError\<close>), raised by the driver or inside a
  hook after the calls of \<open>hook_calls\<close>; \<open>run_interrupted\<close> is its text.
\<close>

record task_env =
  getenv_api_key :: "string option"
  strftime_now :: string
  isalnum_nonascii :: "string \<Rightarrow> bool"
  mkdir_result :: "exn option"
  now_started_at :: datetime
  agent_init :: "exn option"
  hook_calls :: "hook_event list"
  run_interrupted :: "string option"
  run_outcome :: "exn + agent_result"
  now_completed :: datetime
  now_failed :: datetime
  write_text_result :: "exn option"

text \<open>
  What leaves a function of the program: an instance of \<open>Exception\<close>, or an
  exception outside \<open>Exception\<close>, which no handler of the program catches.
\<close>

datatype raised = Raised exn | Interrupted string

fun run_hooks :: "path \<Rightarrow> hook_event list \<Rightarrow> hook_state \<Rightarrow> hook_state" where
  "run_hooks output_dir [] s = s"
| "run_hooks output_dir (StepStart now # rest) s =
     run_hooks output_dir rest (on_step_start now s)"
| "run_hooks output_dir (StepEnd env # rest) s =
     run_hooks output_dir rest (on_step_end output_dir env s)"

definition agent_run ::
  "path \<Rightarrow> task_env \<Rightarrow> hook_state \<Rightarrow> (exn + agent_result) \<times> hook_state" where
  "agent_run output_dir env s = (run_outcome env, run_hooks output_dir (hook_calls env) s)"

definition isalnum :: "char \<Rightarrow> bool" where
  "isalnum c =
     (let n = (of_char c :: nat)
      in (48 \<le> n \<and> n \<le> 57) \<or> (65 \<le> n \<and> n \<le> 90) \<or> (97 \<le> n \<and> n \<le> 122))"

text \<open>
  Whether the slug keeps a code point: \<open>c.isalnum() or c == " "\<close>, computed
  for ASCII and asked of the outside for the other code points.
\<close>

definition keeps_code_point :: "(string \<Rightarrow> bool) \<Rightarrow> string \<Rightarrow> bool" where
  "keeps_code_point isalnum_other cp =
     (case cp of
        [c] \<Rightarrow> if (of_char c :: nat) < 128 then isalnum c \<or> c = CHR '' ''
               else isalnum_other cp
      | _ \<Rightarrow> isalnum_other cp)"

definition safe_name_of :: "(string \<Rightarrow> bool) \<Rightarrow> string \<Rightarrow> string" where
  "safe_name_of isalnum_other user_input =
     map (\<lambda>c. if c = CHR '' '' then CHR ''_'' else c)
       (concat (map (\<lambda>cp. if keeps_code_point isalnum_other cp then cp else ''_'')
                  (take 40 (code_points user_input))))"

definition output_dir_of :: "task_env \<Rightarrow> string \<Rightarrow> path" where
  "output_dir_of env user_input =
     (let app_key = fst (detect_app user_input);
          timestamp = strftime_now env;
          safe_name = safe_name_of (isalnum_nonascii env) user_input
      in ''ui_dataset'' @ ''/'' @ timestamp @ ''_'' @ app_key @ ''_'' @ safe_name)"

text \<open>
  The \<open>try\<close> body of \<open>execute_task\<close>: the run, then the terminal fields of a
  success. It returns the exception raised, if any, with the workflow and
  the effects reached at that point.
\<close>

definition execute_task_try ::
  "path \<Rightarrow> task_env \<Rightarrow> hook_state \<Rightarrow> exn option \<times> CapturedWorkflow \<times> effect list" where
  "execute_task_try output_dir env s0 =
     (let ran = agent_run output_dir env s0;
          w = workflow (snd ran);
          fx = effects (snd ran)
      in case fst ran of
           Inl e \<Rightarrow> (Some e, w, fx)
         | Inr result \<Rightarrow>
             (let w1 = w\<lparr>completed_at := Some (now_completed env)\<rparr>;
                  w2 = w1\<lparr>success := True\<rparr>
              in case truthy result of
                   Inl e \<Rightarrow> (Some e, w2, fx)
                 | Inr b \<Rightarrow>
                     (case (if b then str_result result else Inr ''Completed'') of
                        Inl e \<Rightarrow> (Some e, w2, fx)
                      | Inr text \<Rightarrow>
                          (let w3 = w2\<lparr>final_result := Some text\<rparr>;
                               start = started_at w3
                           in case completed_at w3 of
                                None \<Rightarrow> (Some (Exception ''fromisoformat: argument must be str''), w3, fx)
                              | Some end \<Rightarrow>
                                  (None,
                                   w3\<lparr>total_duration_seconds :=
                                        Some (real_of_int (end - start) / 1000000)\<rparr>,
                                   fx)))))"

text \<open>The handler \<open>except Exception as e\<close> of \<open>execute_task\<close>.\<close>

definition execute_task_except ::
  "task_env \<Rightarrow> exn \<Rightarrow> CapturedWorkflow \<times> effect list \<Rightarrow> CapturedWorkflow \<times> effect list" where
  "execute_task_except env e fin =
     (let fx1 = snd fin @ [Print (nl @ ''Failed: '' @ str_exn e)];
          w1 = (fst fin)\<lparr>completed_at := Some (now_failed env)\<rparr>;
          w2 = w1\<lparr>success := False\<rparr>;
          w3 = w2\<lparr>error_summary := Some (str_exn e)\<rparr>
      in (w3, fx1))"

text \<open>The workflow as \<open>execute_task\<close> creates it; the other fields take their defaults.\<close>

definition new_workflow :: "task_env \<Rightarrow> string \<Rightarrow> CapturedWorkflow" where
  "new_workflow env user_input =
     (let app_key = fst (detect_app user_input);
          app_config = snd (detect_app user_input);
          action_task = transform_to_action_task user_input app_config;
          timestamp = strftime_now env
      in \<lparr>task_id = timestamp @ ''_'' @ app_key,
          original_query = user_input,
          transformed_task = action_task,
          app_name = dict_get app_config ''name'' ''Unknown'',
          app_url = dict_get app_config ''url'' [],
          started_at = now_started_at env,
          completed_at = None,
          total_duration_seconds = None,
          success = False,
          steps = [],
          final_result = None,
          error_summary = None\<rparr>)"

text \<open>The announcements at the start of \<open>execute_task\<close>.\<close>

definition execute_task_announce :: "string \<Rightarrow> effect list \<Rightarrow> effect list" where
  "execute_task_announce user_input fx0 =
     (let fx1 = fx0 @ [Print (nl @ replicate 70 (CHR ''='')),
                       Print (''TASK: '' @ user_input),
                       Print (replicate 70 (CHR ''=''))];
          app_config = snd (detect_app user_input)
      in fx1 @ [Print (''App: '' @ dict_get app_config ''name'' ''Unknown'')])"

text \<open>
  \<open>execute_task\<close> up to the \<open>try\<close> statement, when nothing raises there: the
  announcements, the output directory, the workflow and the hooks.
\<close>

definition execute_task_setup :: "task_env \<Rightarrow> string \<Rightarrow> effect list \<Rightarrow> hook_state" where
  "execute_task_setup env user_input fx0 =
     (let fx2 = execute_task_announce user_input fx0;
          output_dir = output_dir_of env user_input;
          fx3 = fx2 @ [Mkdir output_dir];
          workflow0 = new_workflow env user_input;
          hooks = create_capture_hook workflow0 fx3
      in emit (Print (''If login appears, you will log in manually.'' @ nl))
           (emit (Print ''Starting agent.'') hooks))"

text \<open>
  \<open>execute_task\<close>, given the effects so far. It returns the workflow and
  the effects, or it is left by an exception, given with the effects up to
  there: \<open>ValueError\<close> without the credential; what \<open>mkdir\<close>, \<open>Agent(...)\<close>
  or \<open>write_text\<close> raise, which stand outside the \<open>try\<close> statement; and an
  exception outside \<open>Exception\<close> that cuts the run, which the handler does
  not catch.
\<close>

definition execute_task ::
  "task_env \<Rightarrow> string \<Rightarrow> effect list
   \<Rightarrow> raised \<times> effect list + CapturedWorkflow \<times> effect list" where
  "execute_task env user_input fx0 =
     (if getenv_api_key env = None \<or> getenv_api_key env = Some []
      then Inl (Raised (ValueError ''Missing GOOGLE_API_KEY''), fx0)
      else
        (let fx2 = execute_task_announce user_input fx0;
             output_dir = output_dir_of env user_input
         in case mkdir_result env of
              Some e \<Rightarrow> Inl (Raised e, fx2)
            | None \<Rightarrow>
                (case agent_init env of
                   Some e \<Rightarrow> Inl (Raised e, fx2 @ [Mkdir output_dir])
                 | None \<Rightarrow>
                     (let s0 = execute_task_setup env user_input fx0
                      in case run_interrupted env of
                           Some m \<Rightarrow>
                             Inl (Interrupted m,
                                  effects (run_hooks output_dir (hook_calls env) s0))
                         | None \<Rightarrow>
                             (let tried = execute_task_try output_dir env s0;
                                  fin = (case fst tried of
                                           None \<Rightarrow> snd tried
                                         | Some e \<Rightarrow> execute_task_except env e (snd tried))
                              in case write_text_result env of
                                   Some e \<Rightarrow> Inl (Raised e, snd fin)
                                 | None \<Rightarrow>
                                     Inr (fst fin,
                                          snd fin
                                          @ [WriteText (output_dir @ ''/'' @ ''workflow.json'')
                                               (fst fin),
                                             Print (''Saved to: '' @ output_dir)]))))))"

section \<open>The batch\<close>

definition tasks :: "string list" where
  "tasks =
     [''How do I create a project in Linear?'',
      ''How do I filter issues by status in Linear?'',
      ''How do I delete a project in Linear?'',
      ''How do I create a table database named Sprint Tracker and in Notion?'',
      ''How do i delete the sprint tracker database in Notion?'']"

text \<open>
  The loop of \<open>main\<close> over the queued tasks; \<open>envs i\<close> is what the outside
  answers during the task of index \<open>i\<close>. The loop has no handler: what
  leaves \<open>execute_task\<close> leaves the loop.
\<close>

fun run_tasks ::
  "(nat \<Rightarrow> task_env) \<Rightarrow> nat \<Rightarrow> string list \<Rightarrow> effect list
   \<Rightarrow> raised option \<times> effect list" where
  "run_tasks envs i [] fx = (None, fx)"
| "run_tasks envs i (task # rest) fx =
     (case execute_task (envs i) task fx of
        Inl (e, fx1) \<Rightarrow> (Some e, fx1)
      | Inr (w, fx1) \<Rightarrow> run_tasks envs (Suc i) rest (fx1 @ [Sleep 2]))"

text \<open>
  What the outside answers to \<open>main\<close>: the credential, the creation of the
  shared browser, model client and settings, the tasks, and
  \<open>browser.kill()\<close>.
\<close>

record main_env =
  main_api_key :: "string option"
  init_result :: "exn option"
  task_envs :: "nat \<Rightarrow> task_env"
  kill_result :: "exn option"

definition main :: "main_env \<Rightarrow> raised option \<times> effect list" where
  "main env =
     (if main_api_key env = None \<or> main_api_key env = Some []
      then (Some (Raised (ValueError ''Missing GOOGLE_API_KEY'')), [])
      else
        (let fx0 = [Print (nl @ ''Initializing shared Browser and LLM settings.'' @ nl)]
         in case init_result env of
              Some e \<Rightarrow> (Some (Raised e), fx0)
            | None \<Rightarrow>
                (let looped = run_tasks (task_envs env) 0 tasks fx0
                 in case fst looped of
                      Some e \<Rightarrow> (Some e, snd looped)
                    | None \<Rightarrow>
                        (let fx1 = snd looped @ [Print (nl @ ''Closing shared browser...'')]
                         in case kill_result env of
                              Some e \<Rightarrow> (Some (Raised e), fx1)
                            | None \<Rightarrow> (None, fx1 @ [BrowserKill, Print ''Browser closed.''])))))"

text \<open>The traces written so far: the path and the workflow of every \<open>workflow.json\<close>.\<close>

fun persisted :: "effect list \<Rightarrow> (path \<times> CapturedWorkflow) list" where
  "persisted [] = []"
| "persisted (WriteText p w # fx) = (p, w) # persisted fx"
| "persisted (x # fx) = persisted fx"

section \<open>Counting and example inputs\<close>

text \<open>The number of calls of \<open>on_step_end\<close> among the calls of the hooks.\<close>

fun step_ends :: "hook_event list \<Rightarrow> nat" where
  "step_ends [] = 0"
| "step_ends (StepStart now # rest) = step_ends rest"
| "step_ends (StepEnd env # rest) = Suc (step_ends rest)"

text \<open>
  The ordinals, counted from \<open>k + 1\<close>, of the calls of \<open>on_step_end\<close> that
  append a record to the trace.
\<close>

fun capture_ordinals :: "path \<Rightarrow> hook_event list \<Rightarrow> hook_state \<Rightarrow> nat \<Rightarrow> int list" where
  "capture_ordinals d [] s k = []"
| "capture_ordinals d (StepStart now # rest) s k =
     capture_ordinals d rest (on_step_start now s) k"
| "capture_ordinals d (StepEnd env # rest) s k =
     (if length (steps (workflow s)) < length (steps (workflow (on_step_end d env s)))
      then [int k + 1] else [])
     @ capture_ordinals d rest (on_step_end d env s) (Suc k)"

text \<open>
  Concrete answers of the outside, used to evaluate the program: a step on
  an ordinary page where every call succeeds, the same step when the
  driver cannot report the page, a step on a login page, and that step
  when \<open>agent.pause()\<close> raises and when \<open>agent.resume()\<close> raises.
\<close>

definition ex_step :: step_env where
  "ex_step =
     \<lparr>get_browser_state_summary = Inr (Some ''https://linear.app/board''),
      get_current_page_title = Inr (Some ''Team Board''),
      agent_pause = None,
      read_input = None,
      agent_resume = None,
      screenshot_result = Inr (ShotBytes ''png''),
      b64decode = (\<lambda>t. Inr t),
      write_bytes = None,
      model_actions = Inr [],
      now_duration = 10,
      now_timestamp = 11\<rparr>"

definition ex_step_unobserved :: step_env where
  "ex_step_unobserved =
     ex_step\<lparr>get_browser_state_summary := Inl (Exception ''target closed'')\<rparr>"

definition ex_step_login :: step_env where
  "ex_step_login =
     ex_step\<lparr>get_browser_state_summary := Inr (Some ''https://linear.app/login'')\<rparr>"

definition ex_step_pause_raises :: step_env where
  "ex_step_pause_raises = ex_step_login\<lparr>agent_pause := Some (Exception ''pause failed'')\<rparr>"

definition ex_step_resume_raises :: step_env where
  "ex_step_resume_raises = ex_step_login\<lparr>agent_resume := Some (Exception ''resume failed'')\<rparr>"

text \<open>An episode whose run makes no call of the hooks and returns a result.\<close>

definition ex_task :: task_env where
  "ex_task =
     \<lparr>getenv_api_key = Some ''key'',
      strftime_now = ''20250101_120000'',
      isalnum_nonascii = (\<lambda>cp. True),
      mkdir_result = None,
      now_started_at = 0,
      agent_init = None,
      hook_calls = [],
      run_interrupted = None,
      run_outcome = Inr \<lparr>truthy = Inr True, str_result = Inr ''done''\<rparr>,
      now_completed = 3000000,
      now_failed = 5000000,
      write_text_result = None\<rparr>"

text \<open>
  The answers of the outside under which nothing raises outside the \<open>try\<close>
  statement of \<open>execute_task\<close> and nothing outside \<open>Exception\<close> is raised:
  the credential is set, the output directory and the agent are created,
  the run is not interrupted, and the trace is written.
\<close>

definition can_finish :: "task_env \<Rightarrow> bool" where
  "can_finish env \<longleftrightarrow>
     getenv_api_key env \<noteq> None \<and> getenv_api_key env \<noteq> Some []
     \<and> mkdir_result env = None \<and> agent_init env = None
     \<and> run_interrupted env = None \<and> write_text_result env = None"

section \<open>Properties of a state of the hooks\<close>

text \<open>
  How one call of \<open>on_step_end\<close> with counter value \<open>n\<close> relates the state
  before and after: the workflow is unchanged, or one record numbered \<open>n\<close>
  is appended, of a manual login (which sets the latch) or of a capture.
\<close>

definition step_summary :: "int \<Rightarrow> hook_state \<Rightarrow> hook_state \<Rightarrow> bool" where
  "step_summary n s s' \<longleftrightarrow>
     step_start_time s' = step_start_time s
     \<and> persisted (effects s') = persisted (effects s)
     \<and> (login_handled s \<longrightarrow> waiting_for_login s' = waiting_for_login s
            \<and> count_list (effects s') Pause = count_list (effects s) Pause)
     \<and> ((workflow s' = workflow s \<and> login_handled s' = login_handled s)
        \<or> (\<exists>r. workflow s' = (workflow s)\<lparr>steps := steps (workflow s) @ [r]\<rparr>
               \<and> step_number r = n \<and> CapturedStep.success r
               \<and> ((required_manual_login r \<and> screenshot r = []
                     \<and> action_type r = ''manual_login''
                     \<and> \<not> login_handled s \<and> login_handled s'
                     \<and> \<not> waiting_for_login s')
                  \<or> (\<not> required_manual_login r \<and> screenshot r \<noteq> []
                      \<and> login_handled s' = login_handled s
                      \<and> waiting_for_login s' = waiting_for_login s))))"

text \<open>
  The invariant of the trace: the counter is not negative, the numbers of the records increase strictly
  and lie between 1 and the counter, every record is a success, a record
  is a manual login exactly when it has no screenshot, and there is a
  manual login only once the latch is set, and at most one.
\<close>

definition trace_inv :: "hook_state \<Rightarrow> bool" where
  "trace_inv s \<longleftrightarrow>
     0 \<le> count s
     \<and> sorted_wrt (<) (map step_number (steps (workflow s)))
     \<and> (\<forall>r \<in> set (steps (workflow s)).
           1 \<le> step_number r \<and> step_number r \<le> count s \<and> CapturedStep.success r
           \<and> (required_manual_login r \<longrightarrow> screenshot r = [] \<and> login_handled s)
           \<and> (\<not> required_manual_login r \<longrightarrow> screenshot r \<noteq> []))
     \<and> length (filter required_manual_login (steps (workflow s))) \<le> 1"

text \<open>
  Episodes built from these: the first capture fails and the second
  succeeds; a capture, a manual login, and a capture on the login page
  again; \<open>agent.pause()\<close> raises on the login page and the run returns,
  and the same for \<open>agent.resume()\<close>; the result of the run cannot be
  converted to text; the run raises, with a
  message and with none.
\<close>

definition ex_task_gap :: task_env where
  "ex_task_gap = ex_task\<lparr>hook_calls := [StepEnd ex_step_unobserved, StepEnd ex_step]\<rparr>"

definition ex_task_login :: task_env where
  "ex_task_login =
     ex_task\<lparr>hook_calls := [StepEnd ex_step, StepEnd ex_step_login, StepEnd ex_step_login]\<rparr>"

definition ex_task_pause_raises :: task_env where
  "ex_task_pause_raises = ex_task\<lparr>hook_calls := [StepEnd ex_step_pause_raises]\<rparr>"

definition ex_task_resume_raises :: task_env where
  "ex_task_resume_raises = ex_task\<lparr>hook_calls := [StepEnd ex_step_resume_raises]\<rparr>"

definition ex_task_no_text :: task_env where
  "ex_task_no_text =
     ex_task\<lparr>run_outcome :=
       Inr \<lparr>truthy = Inr True, str_result = Inl (Exception ''no text'')\<rparr>\<rparr>"

definition ex_task_raises :: task_env where
  "ex_task_raises = ex_task\<lparr>run_outcome := Inl (Exception ''step budget exceeded'')\<rparr>"

definition ex_task_raises_silent :: task_env where
  "ex_task_raises_silent = ex_task\<lparr>run_outcome := Inl (Exception [])\<rparr>"

text \<open>The state of the hooks at the start of an episode, and the same with the latch set.\<close>

definition ex_hooks :: hook_state where
  "ex_hooks = create_capture_hook (new_workflow ex_task ''Open Linear'') []"

definition ex_hooks_latched :: hook_state where
  "ex_hooks_latched = ex_hooks\<lparr>login_handled := True\<rparr>"

text \<open>A batch whose first episode raises with no message and whose other episodes return.\<close>

definition ex_batch :: "nat \<Rightarrow> task_env" where
  "ex_batch i = (if i = 0 then ex_task_raises_silent else ex_task)"

text \<open>
  A batch whose first episode raises and whose trace cannot be written,
  and a request with a letter outside ASCII (\<open>e\<close> with an acute accent,
  two bytes).
\<close>

definition ex_batch_unwritten :: "nat \<Rightarrow> task_env" where
  "ex_batch_unwritten i =
     (if i = 0 then ex_task_raises\<lparr>write_text_result := Some (Exception ''disk full'')\<rparr>
      else ex_task)"

definition ex_request_accent :: string where
  "ex_request_accent = ''Caf'' @ [char_of (195 :: nat), char_of (169 :: nat)] @ '' menu?''"

section \<open>The trace persisted for a task\<close>

text \<open>
  How the outcome of the run finalizes a workflow: as a failure with the
  text of the exception when the run raises or when the truth value or the
  text of its result cannot be computed, as a success with the text of the
  result otherwise.
\<close>

definition finalized_by :: "task_env \<Rightarrow> CapturedWorkflow \<Rightarrow> bool" where
  "finalized_by env w \<longleftrightarrow>
     (case (case run_outcome env of
              Inl e \<Rightarrow> Inl e
            | Inr res \<Rightarrow>
                (case truthy res of
                   Inl e \<Rightarrow> Inl e
                 | Inr b \<Rightarrow> if b then str_result res else Inr ''Completed'')) of
        Inl e \<Rightarrow>
          \<not> success w \<and> error_summary w = Some (str_exn e)
          \<and> completed_at w = Some (now_failed env)
      | Inr t \<Rightarrow>
          success w \<and> error_summary w = None \<and> final_result w = Some t
          \<and> completed_at w = Some (now_completed env))"

text \<open>
  What a written \<open>workflow.json\<close> is expected to be for the task \<open>q\<close> run
  under \<open>env\<close>: it lies in the output directory of the task; it is the
  workflow that \<open>execute_task\<close> returns for that task, whatever was done
  before; it is the workflow of that request, with the records appended by
  the hooks during the run, finalized by the outcome of the run.
\<close>

definition persisted_trace_of :: "task_env \<Rightarrow> string \<Rightarrow> path \<times> CapturedWorkflow \<Rightarrow> bool" where
  "persisted_trace_of env q pw \<longleftrightarrow>
     fst pw = output_dir_of env q @ ''/workflow.json''
     \<and> Inr (snd pw) = map_sum fst fst (execute_task env q [])
     \<and> original_query (snd pw) = q
     \<and> steps (snd pw)
         = steps (workflow (run_hooks (output_dir_of env q) (hook_calls env)
                    (execute_task_setup env q [])))
     \<and> finalized_by env (snd pw)"

text \<open>The whole program run on that batch, with the credential set.\<close>

definition ex_main :: main_env where
  "ex_main =
     \<lparr>main_api_key = Some ''key'', init_result = None, task_envs = ex_batch,
      kill_result = None\<rparr>"

section \<open>The checkpoint classifier\<close>

lemma take_prefix_iff: "take (length p) s = p \<longleftrightarrow> (\<exists>suf. s = p @ suf)"
  by (metis append_eq_conv_conj append_take_drop_id)

lemma str_in_iff: "str_in p s \<longleftrightarrow> (\<exists>pre suf. s = pre @ p @ suf)"
proof (induction s)
  case Nil
  then show ?case by auto
next
  case (Cons c cs)
  have "(\<exists>pre suf. c # cs = pre @ p @ suf)
        \<longleftrightarrow> (\<exists>suf. c # cs = p @ suf) \<or> (\<exists>pre suf. cs = pre @ p @ suf)"
  proof
    assume "\<exists>pre suf. c # cs = pre @ p @ suf"
    then obtain pre suf where eq: "c # cs = pre @ p @ suf" by blast
    show "(\<exists>suf. c # cs = p @ suf) \<or> (\<exists>pre suf. cs = pre @ p @ suf)"
    proof (cases pre)
      case Nil
      with eq show ?thesis by auto
    next
      case (Cons a pre')
      with eq have "cs = pre' @ p @ suf" by simp
      then show ?thesis by blast
    qed
  next
    assume "(\<exists>suf. c # cs = p @ suf) \<or> (\<exists>pre suf. cs = pre @ p @ suf)"
    then show "\<exists>pre suf. c # cs = pre @ p @ suf"
    proof
      assume "\<exists>suf. c # cs = p @ suf"
      then obtain suf where "c # cs = [] @ p @ suf" by auto
      then show ?thesis by blast
    next
      assume "\<exists>pre suf. cs = pre @ p @ suf"
      then obtain pre suf where "c # cs = (c # pre) @ p @ suf" by auto
      then show ?thesis by blast
    qed
  qed
  with Cons show ?case
    by (simp only: str_in.simps take_prefix_iff)
qed

lemma any_in_iff: "any_in ps s \<longleftrightarrow> (\<exists>p \<in> set ps. str_in p s)"
  by (induction ps) auto

lemma lower_url_patterns: "p \<in> set LOGIN_URL_PATTERNS \<Longrightarrow> lower p = p"
  by (auto simp: LOGIN_URL_PATTERNS_def lower_def lower_char_def)

lemma lower_page_indicators: "p \<in> set LOGIN_PAGE_INDICATORS \<Longrightarrow> lower p = p"
  by (auto simp: LOGIN_PAGE_INDICATORS_def lower_def lower_char_def)

lemma is_login_page_iff:
  "is_login_page address title \<longleftrightarrow>
     (\<exists>p \<in> set LOGIN_URL_PATTERNS. ci_contains address p)
     \<or> (\<exists>i \<in> set LOGIN_PAGE_INDICATORS. ci_contains title i)"
  by (auto simp: is_login_page_def Let_def any_in_iff str_in_iff ci_contains_def
        lower_url_patterns lower_page_indicators)

text \<open>
  C4. \<open>is_login_page\<close> is true exactly when the address contains one of the
  URL patterns or the title contains one of the page indicators, letter
  case ignored; either match suffices. On the four inputs of the
  specification it answers true, false, true and false.
\<close>

theorem is_login_page_spec:
  "(is_login_page address title \<longleftrightarrow>
      (\<exists>p \<in> set LOGIN_URL_PATTERNS. ci_contains address p)
      \<or> (\<exists>i \<in> set LOGIN_PAGE_INDICATORS. ci_contains title i))
   \<and> is_login_page ''https://app.example.com/login'' [] = True
   \<and> is_login_page ''https://app.example.com/board'' ''Team Board'' = False
   \<and> is_login_page ''https://x.com/x'' ''Please Sign In'' = True
   \<and> is_login_page [] [] = False"
proof -
  have 1: "is_login_page ''https://app.example.com/login'' [] = True" by code_simp
  have 2: "is_login_page ''https://app.example.com/board'' ''Team Board'' = False" by code_simp
  have 3: "is_login_page ''https://x.com/x'' ''Please Sign In'' = True" by code_simp
  have 4: "is_login_page [] [] = False" by code_simp
  from is_login_page_iff 1 2 3 4 show ?thesis by blast
qed

theorem is_login_page_spec_witness:
  "is_login_page ''https://GitHub.com/OAuth/start'' ''Home''
   \<and> ((\<exists>p \<in> set LOGIN_URL_PATTERNS. ci_contains ''https://GitHub.com/OAuth/start'' p)
        \<or> (\<exists>i \<in> set LOGIN_PAGE_INDICATORS. ci_contains ''Home'' i))"
proof -
  have "is_login_page ''https://GitHub.com/OAuth/start'' ''Home''" by code_simp
  with is_login_page_spec [of "''https://GitHub.com/OAuth/start''" "''Home''"]
  show ?thesis by blast
qed

section \<open>One call of a hook\<close>

lemma persisted_append: "persisted (xs @ ys) = persisted xs @ persisted ys"
  by (induction xs rule: persisted.induct) simp_all

lemma manual_login_outcome:
  assumes "manual_login env n u t s = (r, s')"
  shows "count s' = count s \<and> step_start_time s' = step_start_time s
     \<and> persisted (effects s') = persisted (effects s)
     \<and> ((r \<noteq> None \<and> workflow s' = workflow s \<and> login_handled s' = login_handled s
          \<and> waiting_for_login s')
        \<or> (r = None \<and> login_handled s' \<and> \<not> waiting_for_login s'
            \<and> workflow s' = (workflow s)\<lparr>steps := steps (workflow s)
                  @ [manual_login_step n (now_timestamp env) u t]\<rparr>))"
  using assms
  by (auto simp: manual_login_def login_notice_def emit_def append_step_def Let_def
        persisted_append split: option.splits)

lemma capture_step_outcome:
  assumes "capture_step d env n u t s = (r, s')"
  shows "count s' = count s \<and> step_start_time s' = step_start_time s
     \<and> login_handled s' = login_handled s \<and> waiting_for_login s' = waiting_for_login s
     \<and> persisted (effects s') = persisted (effects s)
     \<and> count_list (effects s') Pause = count_list (effects s) Pause
     \<and> ((r \<noteq> None \<and> workflow s' = workflow s)
        \<or> (r = None
            \<and> workflow s' = (workflow s)\<lparr>steps := steps (workflow s)
                  @ [last (steps (workflow s'))]\<rparr>
            \<and> step_number (last (steps (workflow s'))) = n
            \<and> \<not> required_manual_login (last (steps (workflow s')))
            \<and> screenshot (last (steps (workflow s'))) = ''step_'' @ fmt_03d n @ ''.png''
            \<and> CapturedStep.success (last (steps (workflow s')))))"
  using assms
  by (auto simp: capture_step_def captured_step_def emit_def append_step_def Let_def
        persisted_append split: option.splits sum.splits)

lemma manual_login_step_fields:
  "step_number (manual_login_step n now u t) = n"
  "required_manual_login (manual_login_step n now u t)"
  "screenshot (manual_login_step n now u t) = []"
  "CapturedStep.success (manual_login_step n now u t)"
  "action_type (manual_login_step n now u t) = ''manual_login''"
  by (simp_all add: manual_login_step_def)

lemma capture_step_summary:
  assumes "capture_step d env n u t s = (r, s')"
  shows "count s' = count s \<and> step_summary n s s'"
proof -
  note o = capture_step_outcome [OF assms]
  from o have basics: "count s' = count s" "step_start_time s' = step_start_time s"
    "login_handled s' = login_handled s" "waiting_for_login s' = waiting_for_login s"
    "persisted (effects s') = persisted (effects s)"
    "count_list (effects s') Pause = count_list (effects s) Pause"
    by blast+
  show ?thesis
  proof (cases r)
    case (Some e)
    with o have "workflow s' = workflow s" by blast
    with basics show ?thesis unfolding step_summary_def by blast
  next
    case None
    let ?r = "last (steps (workflow s'))"
    from None o have w: "workflow s' = (workflow s)\<lparr>steps := steps (workflow s) @ [?r]\<rparr>"
      and f: "step_number ?r = n" "\<not> required_manual_login ?r" "CapturedStep.success ?r"
      and sh: "screenshot ?r = ''step_'' @ fmt_03d n @ ''.png''"
      by blast+
    from sh have "screenshot ?r \<noteq> []" by simp
    with w f basics show ?thesis unfolding step_summary_def by blast
  qed
qed

lemma manual_login_summary:
  assumes "manual_login env n u t s = (r, s')" and "\<not> login_handled s"
  shows "count s' = count s \<and> step_summary n s s'"
proof -
  note o = manual_login_outcome [OF assms(1)]
  from o have basics: "count s' = count s" "step_start_time s' = step_start_time s"
    "persisted (effects s') = persisted (effects s)"
    by blast+
  show ?thesis
  proof (cases r)
    case (Some e)
    with o have "workflow s' = workflow s" "login_handled s' = login_handled s" by blast+
    with basics assms(2) show ?thesis unfolding step_summary_def by blast
  next
    case None
    let ?r = "manual_login_step n (now_timestamp env) u t"
    from None o have w: "workflow s' = (workflow s)\<lparr>steps := steps (workflow s) @ [?r]\<rparr>"
      and l: "login_handled s'" "\<not> waiting_for_login s'"
      by blast+
    from w l basics assms(2) manual_login_step_fields [of n "now_timestamp env" u t]
    show ?thesis unfolding step_summary_def by blast
  qed
qed

lemma try_capture_outcome:
  assumes "try_capture d env n s = (r, s')"
  shows "count s' = count s \<and> step_summary n s s'"
proof (cases "get_browser_state_summary env")
  case (Inl e)
  with assms show ?thesis by (simp add: try_capture_def step_summary_def)
next
  case st: (Inr state)
  show ?thesis
  proof (cases "get_current_page_title env")
    case (Inl e)
    with st assms show ?thesis by (simp add: try_capture_def step_summary_def)
  next
    case ti: (Inr title)
    let ?u = "current_url_of state" and ?t = "current_title_of title"
    show ?thesis
    proof (cases "is_login_page ?u ?t \<and> \<not> login_handled s")
      case True
      with st ti assms have "manual_login env n ?u ?t s = (r, s')"
        by (simp add: try_capture_def)
      from manual_login_summary [OF this] True show ?thesis by blast
    next
      case False
      with st ti assms have "capture_step d env n ?u ?t s = (r, s')"
        by (simp add: try_capture_def)
      from capture_step_summary [OF this] show ?thesis .
    qed
  qed
qed

lemma step_summary_count:
  "step_summary n (s\<lparr>count := c\<rparr>) s' = step_summary n s s'"
  by (simp add: step_summary_def)

lemma step_summary_emit_print:
  "step_summary n s s' \<Longrightarrow> step_summary n s (emit (Print m) s')"
  unfolding step_summary_def by (simp add: emit_def persisted_append)

lemma on_step_end_outcome:
  "count (on_step_end d env s) = count s + 1
   \<and> step_summary (count s + 1) s (on_step_end d env s)"
proof -
  let ?s1 = "s\<lparr>count := count s + 1\<rparr>"
  obtain r s' where T: "try_capture d env (count s + 1) ?s1 = (r, s')"
    by fastforce
  from try_capture_outcome [OF T]
  have c: "count s' = count s + 1" and sm: "step_summary (count s + 1) s s'"
    by (simp_all add: step_summary_count)
  show ?thesis
  proof (cases r)
    case None
    with T have "on_step_end d env s = s'"
      by (simp add: on_step_end_def Let_def)
    with c sm show ?thesis by simp
  next
    case (Some e)
    with T have "on_step_end d env s = emit (Print (''Capture error: '' @ str_exn e)) s'"
      by (simp add: on_step_end_def Let_def)
    with c sm show ?thesis
      by (simp add: step_summary_emit_print) (simp add: emit_def)
  qed
qed

section \<open>The outcomes of one step\<close>


lemma on_step_end_unobserved:
  assumes "get_browser_state_summary env = Inl e
     \<or> (\<exists>st. get_browser_state_summary env = Inr st \<and> get_current_page_title env = Inl e)
     \<or> (\<exists>st ti. get_browser_state_summary env = Inr st \<and> get_current_page_title env = Inr ti
           \<and> \<not> (is_login_page (current_url_of st) (current_title_of ti) \<and> \<not> login_handled s)
           \<and> screenshot_result env = Inl e)"
  shows "on_step_end d env s
         = emit (Print (''Capture error: '' @ str_exn e)) (s\<lparr>count := count s + 1\<rparr>)"
  using assms
  by (auto simp: on_step_end_def try_capture_def capture_step_def Let_def)

lemma on_step_end_handoff_raised:
  assumes "get_browser_state_summary env = Inr st" and "get_current_page_title env = Inr ti"
    and "is_login_page (current_url_of st) (current_title_of ti)" and "\<not> login_handled s"
    and "agent_pause env = Some e
         \<or> (agent_pause env = None \<and> read_input env = None \<and> agent_resume env = Some e)"
  shows "workflow (on_step_end d env s) = workflow s
     \<and> \<not> login_handled (on_step_end d env s)
     \<and> waiting_for_login (on_step_end d env s)
     \<and> count (on_step_end d env s) = count s + 1
     \<and> last (effects (on_step_end d env s)) = Print (''Capture error: '' @ str_exn e)"
  using assms
  by (auto simp: on_step_end_def try_capture_def manual_login_def login_notice_def emit_def
        Let_def)

lemma on_step_end_handoff:
  assumes "get_browser_state_summary env = Inr st" and "get_current_page_title env = Inr ti"
    and "is_login_page (current_url_of st) (current_title_of ti)" and "\<not> login_handled s"
    and "agent_pause env = None" and "read_input env = None" and "agent_resume env = None"
  shows "steps (workflow (on_step_end d env s))
         = steps (workflow s)
           @ [manual_login_step (count s + 1) (now_timestamp env)
                (current_url_of st) (current_title_of ti)]
     \<and> login_handled (on_step_end d env s)
     \<and> count (on_step_end d env s) = count s + 1"
  using assms
  by (simp add: on_step_end_def try_capture_def manual_login_def login_notice_def emit_def
        append_step_def Let_def)

lemma on_step_end_captured:
  assumes "get_browser_state_summary env = Inr st" and "get_current_page_title env = Inr ti"
    and "\<not> (is_login_page (current_url_of st) (current_title_of ti) \<and> \<not> login_handled s)"
    and "screenshot_result env = Inr sh" and "screenshot_bytes_of env sh = Inr b"
    and "write_bytes env = None" and "model_actions env = Inr acts"
  shows "steps (workflow (on_step_end d env s))
         = steps (workflow s)
           @ [captured_step (count s + 1) (now_timestamp env) (action_label acts)
                (current_url_of st) (current_title_of ti)
                (''step_'' @ fmt_03d (count s + 1) @ ''.png'')
                (case step_start_time s of
                   None \<Rightarrow> None
                 | Some t0 \<Rightarrow> Some (real_of_int (now_duration env - t0) / 1000000 * 1000))]
     \<and> login_handled (on_step_end d env s) = login_handled s
     \<and> count (on_step_end d env s) = count s + 1"
  using assms
  by (auto simp: on_step_end_def try_capture_def capture_step_def emit_def
        append_step_def Let_def)

lemma on_step_end_pause_raised:
  assumes "get_browser_state_summary env = Inr st" and "get_current_page_title env = Inr ti"
    and "is_login_page (current_url_of st) (current_title_of ti)" and "\<not> login_handled s"
    and "agent_pause env = Some e"
  shows "on_step_end d env s
         = emit (Print (''Capture error: '' @ str_exn e))
             (login_notice (current_url_of st) (current_title_of ti)
                (s\<lparr>count := count s + 1, waiting_for_login := True\<rparr>))"
  using assms
  by (simp add: on_step_end_def try_capture_def manual_login_def Let_def)

lemma on_step_end_resume_raised:
  assumes "get_browser_state_summary env = Inr st" and "get_current_page_title env = Inr ti"
    and "is_login_page (current_url_of st) (current_title_of ti)" and "\<not> login_handled s"
    and "agent_pause env = None" and "read_input env = None" and "agent_resume env = Some e"
  shows "on_step_end d env s
         = emit (Print (''Capture error: '' @ str_exn e))
             (emit Input
                (emit Pause
                   (login_notice (current_url_of st) (current_title_of ti)
                      (s\<lparr>count := count s + 1, waiting_for_login := True\<rparr>))))"
  using assms
  by (simp add: on_step_end_def try_capture_def manual_login_def Let_def)

lemma on_step_end_handoff_retried:
  assumes "get_browser_state_summary env = Inr st" and "get_current_page_title env = Inr ti"
    and "is_login_page (current_url_of st) (current_title_of ti)" and "\<not> login_handled s"
    and "agent_pause env = Some e
         \<or> (agent_pause env = None \<and> read_input env = None \<and> agent_resume env = Some e)"
    and "get_browser_state_summary env' = Inr st'" and "get_current_page_title env' = Inr ti'"
    and "is_login_page (current_url_of st') (current_title_of ti')"
    and "agent_pause env' = None" and "read_input env' = None" and "agent_resume env' = None"
  shows "steps (workflow (on_step_end d env' (on_step_end d env s)))
         = steps (workflow s)
           @ [manual_login_step (count s + 2) (now_timestamp env')
                (current_url_of st') (current_title_of ti')]
     \<and> login_handled (on_step_end d env' (on_step_end d env s))"
proof -
  from on_step_end_handoff_raised [OF assms(1-5), of d]
  have w: "workflow (on_step_end d env s) = workflow s"
    and l: "\<not> login_handled (on_step_end d env s)"
    and c: "count (on_step_end d env s) = count s + 1"
    by blast+
  have "count s + 1 + 1 = count s + 2" by simp
  with on_step_end_handoff [OF assms(6-8) l assms(9-11), of d] w c
  show ?thesis by (simp only:)
qed

lemma on_step_end_not_resumed:
  assumes "get_browser_state_summary env = Inr st" and "get_current_page_title env = Inr ti"
    and "is_login_page (current_url_of st) (current_title_of ti)" and "\<not> login_handled s"
    and "agent_pause env = Some e
         \<or> (agent_pause env = None \<and> read_input env = None \<and> agent_resume env = Some e)"
  shows "count_list (effects (on_step_end d env s)) Resume = count_list (effects s) Resume"
  using assms(5)
proof
  assume "agent_pause env = Some e"
  from on_step_end_pause_raised [OF assms(1-4) this, of d] show ?thesis
    by (simp add: emit_def login_notice_def)
next
  assume "agent_pause env = None \<and> read_input env = None \<and> agent_resume env = Some e"
  then have "agent_pause env = None" "read_input env = None" "agent_resume env = Some e"
    by simp_all
  from on_step_end_resume_raised [OF assms(1-4) this, of d] show ?thesis
    by (simp add: emit_def login_notice_def)
qed


section \<open>The calls of the hooks during a run\<close>

lemma on_step_start_trace_inv: "trace_inv s \<Longrightarrow> trace_inv (on_step_start now s)"
  by (simp add: trace_inv_def on_step_start_def)

lemma on_step_end_trace_inv:
  assumes "trace_inv s"
  shows "trace_inv (on_step_end d env s)"
proof -
  let ?s' = "on_step_end d env s"
  from on_step_end_outcome [of d env s]
  have c: "count ?s' = count s + 1" and sm: "step_summary (count s + 1) s ?s'"
    by blast+
  from sm consider
      (same) "workflow ?s' = workflow s" "login_handled ?s' = login_handled s"
    | (manual) r where "workflow ?s' = (workflow s)\<lparr>steps := steps (workflow s) @ [r]\<rparr>"
        "step_number r = count s + 1" "CapturedStep.success r"
        "required_manual_login r" "screenshot r = []" "\<not> login_handled s" "login_handled ?s'"
    | (capture) r where "workflow ?s' = (workflow s)\<lparr>steps := steps (workflow s) @ [r]\<rparr>"
        "step_number r = count s + 1" "CapturedStep.success r"
        "\<not> required_manual_login r" "screenshot r \<noteq> []" "login_handled ?s' = login_handled s"
    unfolding step_summary_def by blast
  then show ?thesis
  proof cases
    case same
    with assms c show ?thesis by (auto simp: trace_inv_def)
  next
    case manual
    from assms manual(6) have "filter required_manual_login (steps (workflow s)) = []"
      by (auto simp: trace_inv_def filter_empty_conv)
    with assms c manual show ?thesis
      by (auto simp: trace_inv_def sorted_wrt_append)
  next
    case capture
    with assms c show ?thesis
      by (auto simp: trace_inv_def sorted_wrt_append)
  qed
qed

lemma run_hooks_trace_inv: "trace_inv s \<Longrightarrow> trace_inv (run_hooks d es s)"
  by (induction d es s rule: run_hooks.induct)
     (simp_all add: on_step_start_trace_inv on_step_end_trace_inv)

lemma run_hooks_count: "count (run_hooks d es s) = count s + int (step_ends es)"
proof (induction d es s rule: run_hooks.induct)
  case (3 d env rest s)
  then show ?case using on_step_end_outcome [of d env s] by simp
qed (simp_all add: on_step_start_def)


lemma on_step_end_latched:
  assumes "login_handled s"
  shows "login_handled (on_step_end d env s)
     \<and> waiting_for_login (on_step_end d env s) = waiting_for_login s
     \<and> count_list (effects (on_step_end d env s)) Pause = count_list (effects s) Pause
     \<and> filter required_manual_login (steps (workflow (on_step_end d env s)))
         = filter required_manual_login (steps (workflow s))"
proof -
  let ?s' = "on_step_end d env s"
  from on_step_end_outcome [of d env s]
  have sm: "step_summary (count s + 1) s ?s'" by blast
  from sm assms have w: "waiting_for_login ?s' = waiting_for_login s"
    and p: "count_list (effects ?s') Pause = count_list (effects s) Pause"
    unfolding step_summary_def by blast+
  from sm assms consider
      (same) "workflow ?s' = workflow s" "login_handled ?s'"
    | (capture) r where "workflow ?s' = (workflow s)\<lparr>steps := steps (workflow s) @ [r]\<rparr>"
        "\<not> required_manual_login r" "login_handled ?s'"
    unfolding step_summary_def by blast
  then show ?thesis
  proof cases
    case same
    with w p show ?thesis by simp
  next
    case capture
    with w p show ?thesis by simp
  qed
qed

lemma run_hooks_latched:
  "login_handled s \<Longrightarrow>
     login_handled (run_hooks d es s)
     \<and> waiting_for_login (run_hooks d es s) = waiting_for_login s
     \<and> count_list (effects (run_hooks d es s)) Pause = count_list (effects s) Pause
     \<and> filter required_manual_login (steps (workflow (run_hooks d es s)))
         = filter required_manual_login (steps (workflow s))"
proof (induction d es s rule: run_hooks.induct)
  case (1 d s)
  then show ?case by simp
next
  case (2 d now rest s)
  then show ?case by (simp add: on_step_start_def)
next
  case (3 d env rest s)
  from on_step_end_latched [OF "3.prems", of d env] "3.IH"
  show ?case by simp
qed

lemma on_step_end_workflow:
  "\<exists>xs. workflow (on_step_end d env s) = (workflow s)\<lparr>steps := xs\<rparr>"
proof -
  from on_step_end_outcome [of d env s]
  have "workflow (on_step_end d env s) = workflow s
        \<or> (\<exists>r. workflow (on_step_end d env s)
                 = (workflow s)\<lparr>steps := steps (workflow s) @ [r]\<rparr>)"
    unfolding step_summary_def by blast
  then show ?thesis
  proof
    assume "workflow (on_step_end d env s) = workflow s"
    then have "workflow (on_step_end d env s) = (workflow s)\<lparr>steps := steps (workflow s)\<rparr>"
      by simp
    then show ?thesis by blast
  qed blast
qed

lemma run_hooks_workflow:
  "\<exists>xs. workflow (run_hooks d es s) = (workflow s)\<lparr>steps := xs\<rparr>"
proof (induction d es s rule: run_hooks.induct)
  case (1 d s)
  have "workflow s = (workflow s)\<lparr>steps := steps (workflow s)\<rparr>" by simp
  then show ?case by (metis run_hooks.simps(1))
next
  case (2 d now rest s)
  then show ?case by (simp add: on_step_start_def)
next
  case (3 d env rest s)
  from on_step_end_workflow [of d env s] obtain xs
    where "workflow (on_step_end d env s) = (workflow s)\<lparr>steps := xs\<rparr>" by blast
  with "3.IH" show ?case by auto
qed

lemma run_hooks_persisted:
  "persisted (effects (run_hooks d es s)) = persisted (effects s)"
proof (induction d es s rule: run_hooks.induct)
  case (3 d env rest s)
  from on_step_end_outcome [of d env s]
  have "persisted (effects (on_step_end d env s)) = persisted (effects s)"
    unfolding step_summary_def by blast
  with "3.IH" show ?case by simp
qed (simp_all add: on_step_start_def)

lemma increasing_nth_lower:
  fixes xs :: "int list"
  assumes "sorted_wrt (<) xs" and "\<forall>x \<in> set xs. 1 \<le> x"
  shows "i < length xs \<Longrightarrow> int i + 1 \<le> xs ! i"
proof (induction i)
  case 0
  with assms(2) show ?case by (simp add: nth_mem)
next
  case (Suc i)
  then have "int i + 1 \<le> xs ! i" by simp
  moreover from assms(1) Suc.prems have "xs ! i < xs ! Suc i"
    by (simp add: sorted_wrt_nth_less)
  ultimately show ?case by simp
qed

lemma increasing_nth_upper:
  fixes xs :: "int list"
  assumes "sorted_wrt (<) xs" and "\<forall>x \<in> set xs. x \<le> c"
  shows "i + j + 1 = length xs \<Longrightarrow> xs ! i \<le> c - int j"
proof (induction j arbitrary: i)
  case 0
  then have "i < length xs" by simp
  with assms(2) show ?case by (simp add: nth_mem)
next
  case (Suc j)
  then have "xs ! Suc i \<le> c - int j" by simp
  moreover from assms(1) Suc.prems have "xs ! i < xs ! Suc i"
    by (simp add: sorted_wrt_nth_less)
  ultimately show ?case by simp
qed

lemma run_hooks_ordinals:
  assumes "count s = int k"
  shows "map step_number (steps (workflow (run_hooks d es s)))
         = map step_number (steps (workflow s)) @ capture_ordinals d es s k"
  using assms
proof (induction es arbitrary: s k)
  case Nil
  show ?case by simp
next
  case (Cons ev rest)
  show ?case
  proof (cases ev)
    case (StepStart now)
    have "count (on_step_start now s) = int k" and "workflow (on_step_start now s) = workflow s"
      using Cons.prems by (simp_all add: on_step_start_def)
    with Cons.IH [of "on_step_start now s" k] StepStart show ?thesis by simp
  next
    case (StepEnd env)
    let ?s' = "on_step_end d env s"
    from on_step_end_outcome [of d env s] Cons.prems
    have c: "count ?s' = int (Suc k)" and sm: "step_summary (int k + 1) s ?s'"
      by simp_all
    from sm have "workflow ?s' = workflow s
        \<or> (\<exists>r. workflow ?s' = (workflow s)\<lparr>steps := steps (workflow s) @ [r]\<rparr>
               \<and> step_number r = int k + 1)"
      unfolding step_summary_def by blast
    then have "map step_number (steps (workflow ?s'))
               = map step_number (steps (workflow s))
                 @ (if length (steps (workflow s)) < length (steps (workflow ?s'))
                    then [int k + 1] else [])"
      by auto
    with Cons.IH [OF c] StepEnd show ?thesis by simp
  qed
qed

lemma on_step_end_appends:
  "count (on_step_end d env s) = count s + 1
   \<and> (steps (workflow (on_step_end d env s)) = steps (workflow s)
      \<or> (\<exists>r. steps (workflow (on_step_end d env s)) = steps (workflow s) @ [r]
             \<and> step_number r = count s + 1))"
proof -
  from on_step_end_outcome [of d env s]
  have c: "count (on_step_end d env s) = count s + 1"
    and "workflow (on_step_end d env s) = workflow s
        \<or> (\<exists>r. workflow (on_step_end d env s)
                  = (workflow s)\<lparr>steps := steps (workflow s) @ [r]\<rparr>
               \<and> step_number r = count s + 1)"
    unfolding step_summary_def by blast+
  then have "steps (workflow (on_step_end d env s)) = steps (workflow s)
      \<or> (\<exists>r. steps (workflow (on_step_end d env s)) = steps (workflow s) @ [r]
             \<and> step_number r = count s + 1)"
    by auto
  with c show ?thesis by simp
qed


section \<open>The effects so far do not steer the hooks\<close>

lemma erase_effects_eq:
  fixes a b :: hook_state
  assumes "a\<lparr>effects := []\<rparr> = b\<lparr>effects := []\<rparr>"
  shows "a = b\<lparr>effects := effects a\<rparr>"
  using assms by (cases a, cases b) simp

lemma manual_login_effects:
  "fst (manual_login env n u t (s\<lparr>effects := fx\<rparr>)) = fst (manual_login env n u t s)"
  "(snd (manual_login env n u t (s\<lparr>effects := fx\<rparr>)))\<lparr>effects := []\<rparr>
   = (snd (manual_login env n u t s))\<lparr>effects := []\<rparr>"
  by (simp_all add: manual_login_def Let_def emit_def login_notice_def append_step_def
        split: option.splits)

lemma capture_step_effects:
  "fst (capture_step d env n u t (s\<lparr>effects := fx\<rparr>)) = fst (capture_step d env n u t s)"
  "(snd (capture_step d env n u t (s\<lparr>effects := fx\<rparr>)))\<lparr>effects := []\<rparr>
   = (snd (capture_step d env n u t s))\<lparr>effects := []\<rparr>"
  by (simp_all add: capture_step_def Let_def emit_def append_step_def
        split: option.splits sum.splits)

lemma try_capture_effects:
  "fst (try_capture d env n (s\<lparr>effects := fx\<rparr>)) = fst (try_capture d env n s)"
  "(snd (try_capture d env n (s\<lparr>effects := fx\<rparr>)))\<lparr>effects := []\<rparr>
   = (snd (try_capture d env n s))\<lparr>effects := []\<rparr>"
  by (simp_all add: try_capture_def Let_def manual_login_effects capture_step_effects
        split: sum.splits)

lemma on_step_end_effects:
  "(on_step_end d env (s\<lparr>effects := fx\<rparr>))\<lparr>effects := []\<rparr>
   = (on_step_end d env s)\<lparr>effects := []\<rparr>"
proof -
  define a where "a = try_capture d env (count s + 1) (s\<lparr>effects := fx, count := count s + 1\<rparr>)"
  define b where "b = try_capture d env (count s + 1) (s\<lparr>count := count s + 1\<rparr>)"
  have swap: "s\<lparr>effects := fx, count := count s + 1\<rparr>
              = (s\<lparr>count := count s + 1\<rparr>)\<lparr>effects := fx\<rparr>"
    by (cases s) simp
  have e: "(snd a)\<lparr>effects := []\<rparr> = (snd b)\<lparr>effects := []\<rparr>"
    unfolding a_def b_def swap by (rule try_capture_effects)
  have l: "on_step_end d env (s\<lparr>effects := fx\<rparr>)
           = (case a of (None, s') \<Rightarrow> s'
              | (Some e, s') \<Rightarrow> emit (Print (''Capture error: '' @ str_exn e)) s')"
    by (simp add: on_step_end_def Let_def a_def)
  have r: "on_step_end d env s
           = (case b of (None, s') \<Rightarrow> s'
              | (Some e, s') \<Rightarrow> emit (Print (''Capture error: '' @ str_exn e)) s')"
    by (simp add: on_step_end_def Let_def b_def)
  have "(on_step_end d env (s\<lparr>effects := fx\<rparr>))\<lparr>effects := []\<rparr> = (snd a)\<lparr>effects := []\<rparr>"
    unfolding l by (cases a) (simp add: emit_def split: option.splits)
  moreover have "(on_step_end d env s)\<lparr>effects := []\<rparr> = (snd b)\<lparr>effects := []\<rparr>"
    unfolding r by (cases b) (simp add: emit_def split: option.splits)
  ultimately show ?thesis using e by simp
qed

lemma run_hooks_effects:
  "(run_hooks d es (s\<lparr>effects := fx\<rparr>))\<lparr>effects := []\<rparr> = (run_hooks d es s)\<lparr>effects := []\<rparr>"
proof (induction es arbitrary: s fx)
  case Nil
  show ?case by simp
next
  case (Cons ev rest)
  show ?case
  proof (cases ev)
    case (StepStart now)
    have "on_step_start now (s\<lparr>effects := fx\<rparr>) = (on_step_start now s)\<lparr>effects := fx\<rparr>"
      by (simp add: on_step_start_def)
    with Cons.IH [where s = "on_step_start now s" and fx = fx] StepStart show ?thesis by simp
  next
    case (StepEnd env)
    from erase_effects_eq [OF on_step_end_effects [where d = d and env = env and s = s and fx = fx]]
    have "on_step_end d env (s\<lparr>effects := fx\<rparr>)
          = (on_step_end d env s)\<lparr>effects := effects (on_step_end d env (s\<lparr>effects := fx\<rparr>))\<rparr>" .
    with Cons.IH [where s = "on_step_end d env s"
         and fx = "effects (on_step_end d env (s\<lparr>effects := fx\<rparr>))"]
      StepEnd
    show ?thesis by simp
  qed
qed

lemma run_hooks_workflow_effects:
  "workflow (run_hooks d es (s\<lparr>effects := fx\<rparr>)) = workflow (run_hooks d es s)"
  using arg_cong [OF run_hooks_effects [where d = d and es = es and s = s and fx = fx], of workflow] by simp

section \<open>One episode\<close>

lemma new_workflow_fields:
  "steps (new_workflow env q) = []"
  "completed_at (new_workflow env q) = None"
  "total_duration_seconds (new_workflow env q) = None"
  "success (new_workflow env q) = False"
  "final_result (new_workflow env q) = None"
  "error_summary (new_workflow env q) = None"
  "original_query (new_workflow env q) = q"
  "started_at (new_workflow env q) = now_started_at env"
  by (simp_all add: new_workflow_def Let_def)

lemma execute_task_setup_facts:
  "count (execute_task_setup env q fx) = 0"
  "\<not> login_handled (execute_task_setup env q fx)"
  "workflow (execute_task_setup env q fx) = new_workflow env q"
  "persisted (effects (execute_task_setup env q fx)) = persisted fx"
  by (simp_all add: execute_task_setup_def execute_task_announce_def create_capture_hook_def
        emit_def Let_def persisted_append)

lemma execute_task_setup_trace_inv: "trace_inv (execute_task_setup env q fx)"
  by (simp add: trace_inv_def execute_task_setup_facts new_workflow_fields)

lemma execute_task_total:
  assumes "can_finish env"
  shows "\<exists>w fx'. execute_task env q fx = Inr (w, fx')"
  using assms by (auto simp: execute_task_def can_finish_def Let_def)

lemma execute_task_key:
  assumes "execute_task env q fx = Inr (w, fx')"
  shows "can_finish env"
  using assms
  by (auto simp: execute_task_def can_finish_def Let_def split: if_splits option.splits)

lemma execute_task_unfold:
  assumes "execute_task env q fx = Inr (w, fx')"
  shows "(w, fx') =
     (let output_dir = output_dir_of env q;
          tried = execute_task_try output_dir env (execute_task_setup env q fx);
          fin = (case fst tried of
                   None \<Rightarrow> snd tried
                 | Some e \<Rightarrow> execute_task_except env e (snd tried))
      in (fst fin,
          snd fin @ [WriteText (output_dir @ ''/'' @ ''workflow.json'') (fst fin),
                     Print (''Saved to: '' @ output_dir)]))"
  using assms
  by (auto simp: execute_task_def Let_def split: if_splits option.splits)

lemma execute_task_raised:
  assumes "execute_task env q fx = Inr (w, fx')" and "run_outcome env = Inl e"
  shows "w = (workflow (run_hooks (output_dir_of env q) (hook_calls env)
                 (execute_task_setup env q fx)))
              \<lparr>completed_at := Some (now_failed env), success := False,
               error_summary := Some (str_exn e)\<rparr>"
  using execute_task_unfold [OF assms(1)] assms(2)
  by (simp add: execute_task_try_def execute_task_except_def agent_run_def Let_def)

lemma execute_task_returned:
  assumes "execute_task env q fx = Inr (w, fx')" and "run_outcome env = Inr res"
    and "truthy res = Inr b" and "b \<Longrightarrow> str_result res = Inr t"
  shows "w = (workflow (run_hooks (output_dir_of env q) (hook_calls env)
                 (execute_task_setup env q fx)))
              \<lparr>completed_at := Some (now_completed env), success := True,
               final_result := Some (if b then t else ''Completed''),
               total_duration_seconds :=
                 Some (real_of_int (now_completed env
                         - started_at (workflow (run_hooks (output_dir_of env q) (hook_calls env)
                              (execute_task_setup env q fx)))) / 1000000)\<rparr>"
  using execute_task_unfold [OF assms(1)] assms(2,3,4)
  by (cases b)
     (simp_all add: execute_task_try_def execute_task_except_def agent_run_def Let_def)

lemma execute_task_conversion_raised:
  assumes "execute_task env q fx = Inr (w, fx')" and "run_outcome env = Inr res"
    and "truthy res = Inl e \<or> (truthy res = Inr True \<and> str_result res = Inl e)"
  shows "w = (workflow (run_hooks (output_dir_of env q) (hook_calls env)
                 (execute_task_setup env q fx)))
              \<lparr>completed_at := Some (now_failed env), success := False,
               error_summary := Some (str_exn e)\<rparr>"
  using execute_task_unfold [OF assms(1)] assms(2,3)
  by (auto simp add: execute_task_try_def execute_task_except_def agent_run_def Let_def)

lemma execute_task_persisted:
  assumes "execute_task env q fx = Inr (w, fx')"
  shows "persisted fx' = persisted fx @ [(output_dir_of env q @ ''/workflow.json'', w)]"
  using execute_task_unfold [OF assms]
  by (auto simp add: execute_task_try_def execute_task_except_def agent_run_def
        Let_def persisted_append run_hooks_persisted execute_task_setup_facts
        split: option.splits sum.splits)


lemma execute_task_steps:
  assumes "execute_task env q fx = Inr (w, fx')"
  shows "steps w = steps (workflow (run_hooks (output_dir_of env q) (hook_calls env)
                      (execute_task_setup env q fx)))"
  using execute_task_unfold [OF assms]
  by (auto simp: execute_task_try_def execute_task_except_def agent_run_def
        Let_def split: sum.splits option.splits)

lemma execute_task_trace_inv:
  "trace_inv (run_hooks (output_dir_of env q) (hook_calls env) (execute_task_setup env q fx))"
  by (simp add: run_hooks_trace_inv execute_task_setup_trace_inv)



lemma hooks_workflow_fields:
  fixes env q fx d es
  defines "h \<equiv> workflow (run_hooks d es (execute_task_setup env q fx))"
  shows "completed_at h = None" and "total_duration_seconds h = None"
    and "success h = False" and "final_result h = None" and "error_summary h = None"
    and "original_query h = q" and "started_at h = now_started_at env"
proof -
  from run_hooks_workflow [of d es "execute_task_setup env q fx"] obtain xs
    where "h = (new_workflow env q)\<lparr>steps := xs\<rparr>"
    unfolding h_def by (auto simp: execute_task_setup_facts)
  then show "completed_at h = None" and "total_duration_seconds h = None"
    and "success h = False" and "final_result h = None" and "error_summary h = None"
    and "original_query h = q" and "started_at h = now_started_at env"
    by (simp_all add: new_workflow_fields)
qed

lemma execute_task_setup_effects:
  "execute_task_setup env q fx
   = (execute_task_setup env q [])\<lparr>effects := effects (execute_task_setup env q fx)\<rparr>"
  by (simp add: execute_task_setup_def create_capture_hook_def emit_def Let_def)

lemma hooks_workflow_indep:
  "workflow (run_hooks d es (execute_task_setup env q fx))
   = workflow (run_hooks d es (execute_task_setup env q []))"
proof -
  have "run_hooks d es (execute_task_setup env q fx)
        = run_hooks d es ((execute_task_setup env q [])
                            \<lparr>effects := effects (execute_task_setup env q fx)\<rparr>)"
    by (rule arg_cong [OF execute_task_setup_effects])
  then show ?thesis by (simp only: run_hooks_workflow_effects)
qed

lemma execute_task_try_workflow:
  assumes "workflow (run_hooks d (hook_calls env) s) = workflow (run_hooks d (hook_calls env) t)"
  shows "fst (execute_task_try d env s) = fst (execute_task_try d env t)"
    and "fst (snd (execute_task_try d env s)) = fst (snd (execute_task_try d env t))"
  using assms
  by (simp_all add: execute_task_try_def agent_run_def Let_def split: sum.splits option.splits)

lemma execute_task_workflow_indep:
  assumes E: "execute_task env q fx = Inr (w, fx')"
  shows "map_sum fst fst (execute_task env q []) = Inr w"
proof -
  let ?d = "output_dir_of env q"
  from execute_task_total [OF execute_task_key [OF E]] obtain w0 fx0
    where E0: "execute_task env q [] = Inr (w0, fx0)" by blast
  let ?a = "execute_task_try ?d env (execute_task_setup env q fx)"
  let ?b = "execute_task_try ?d env (execute_task_setup env q [])"
  from execute_task_try_workflow [OF hooks_workflow_indep [of ?d "hook_calls env" env q fx]]
  have f: "fst ?a = fst ?b" and s: "fst (snd ?a) = fst (snd ?b)" by simp_all
  from execute_task_unfold [OF E]
  have "w = fst (case fst ?a of None \<Rightarrow> snd ?a | Some e \<Rightarrow> execute_task_except env e (snd ?a))"
    by (simp add: Let_def)
  moreover from execute_task_unfold [OF E0]
  have "w0 = fst (case fst ?b of None \<Rightarrow> snd ?b | Some e \<Rightarrow> execute_task_except env e (snd ?b))"
    by (simp add: Let_def)
  ultimately have "w = w0"
    using f s by (simp add: execute_task_except_def Let_def split: option.splits)
  with E0 show ?thesis by simp
qed

lemma execute_task_aborted:
  assumes "\<not> can_finish env"
  shows "\<exists>r fx1. execute_task env q fx = Inl (r, fx1) \<and> persisted fx1 = persisted fx"
  using assms
  by (auto simp: execute_task_def can_finish_def Let_def execute_task_announce_def
        execute_task_try_def execute_task_except_def agent_run_def
        persisted_append run_hooks_persisted execute_task_setup_facts
        split: option.splits sum.splits)

section \<open>The example inputs\<close>

lemma ex_step_facts:
  "get_browser_state_summary ex_step = Inr (Some ''https://linear.app/board'')"
  "get_current_page_title ex_step = Inr (Some ''Team Board'')"
  "screenshot_result ex_step = Inr (ShotBytes ''png'')"
  "screenshot_bytes_of ex_step (ShotBytes ''png'') = Inr ''png''"
  "write_bytes ex_step = None"
  "model_actions ex_step = Inr []"
  "now_timestamp ex_step = 11"
  by (simp_all add: ex_step_def screenshot_bytes_of_def)

lemma ex_step_login_facts:
  "get_browser_state_summary ex_step_login = Inr (Some ''https://linear.app/login'')"
  "get_current_page_title ex_step_login = Inr (Some ''Team Board'')"
  "agent_pause ex_step_login = None"
  "read_input ex_step_login = None"
  "agent_resume ex_step_login = None"
  "screenshot_result ex_step_login = Inr (ShotBytes ''png'')"
  "screenshot_bytes_of ex_step_login (ShotBytes ''png'') = Inr ''png''"
  "write_bytes ex_step_login = None"
  "model_actions ex_step_login = Inr []"
  "now_timestamp ex_step_login = 11"
  by (simp_all add: ex_step_login_def ex_step_def screenshot_bytes_of_def)

lemma ex_pages:
  "\<not> is_login_page (current_url_of (Some ''https://linear.app/board''))
        (current_title_of (Some ''Team Board''))"
  "is_login_page (current_url_of (Some ''https://linear.app/login''))
        (current_title_of (Some ''Team Board''))"
  by code_simp+

lemma ex_filenames:
  "fmt_03d 1 = ''001''" "fmt_03d 2 = ''002''" "fmt_03d 3 = ''003''"
  by code_simp+

lemma ex_task_key: "can_finish ex_task"
  by (simp add: ex_task_def can_finish_def)



lemma ex_task_login_trace:
  "\<not> isl (execute_task ex_task_login ''Open Linear'' [])
   \<and> map (\<lambda>r. (step_number r, required_manual_login r, screenshot r))
        (steps (fst (projr (execute_task ex_task_login ''Open Linear'' []))))
      = [(1, False, ''step_001.png''), (2, True, []), (3, False, ''step_003.png'')]"
proof -
  let ?q = "''Open Linear''"
  let ?d = "output_dir_of ex_task_login ?q"
  let ?s0 = "execute_task_setup ex_task_login ?q []"
  let ?f = "\<lambda>r. (step_number r, required_manual_login r, screenshot r)"
  have key: "can_finish ex_task_login"
    by (simp add: can_finish_def ex_task_login_def ex_task_def)
  from execute_task_total [OF key] obtain w fx'
    where E: "execute_task ex_task_login ?q [] = Inr (w, fx')" by blast
  let ?s1 = "on_step_end ?d ex_step ?s0"
  let ?s2 = "on_step_end ?d ex_step_login ?s1"
  let ?s3 = "on_step_end ?d ex_step_login ?s2"
  have f0: "count ?s0 = 0" "\<not> login_handled ?s0" "steps (workflow ?s0) = []"
    by (simp_all add: execute_task_setup_facts new_workflow_fields)
  from on_step_end_captured [of ex_step _ _ ?s0 _ _ _ ?d] f0
  have f1: "map ?f (steps (workflow ?s1)) = [(1, False, ''step_001.png'')]"
      "count ?s1 = 1" "\<not> login_handled ?s1"
    by (simp_all add: ex_step_facts ex_pages captured_step_def ex_filenames)
  from on_step_end_handoff [of ex_step_login _ _ ?s1 ?d] f1
  have f2: "map ?f (steps (workflow ?s2)) = [(1, False, ''step_001.png''), (2, True, [])]"
      "count ?s2 = 2" "login_handled ?s2"
    by (simp_all add: ex_step_login_facts ex_pages manual_login_step_def)
  from on_step_end_captured [of ex_step_login _ _ ?s2 _ _ _ ?d] f2
  have f3: "map ?f (steps (workflow ?s3))
            = [(1, False, ''step_001.png''), (2, True, []), (3, False, ''step_003.png'')]"
    by (simp add: ex_step_login_facts captured_step_def ex_filenames)
  have "hook_calls ex_task_login = [StepEnd ex_step, StepEnd ex_step_login, StepEnd ex_step_login]"
    by (simp add: ex_task_login_def)
  with f3 have "map ?f (steps w)
            = [(1, False, ''step_001.png''), (2, True, []), (3, False, ''step_003.png'')]"
    using execute_task_steps [OF E] by simp
  with E show ?thesis by simp
qed



lemma ex_hooks_facts:
  "count ex_hooks = 0" "\<not> login_handled ex_hooks" "steps (workflow ex_hooks) = []"
  "login_handled ex_hooks_latched" "steps (workflow ex_hooks_latched) = []"
  "count ex_hooks_latched = 0"
  by (simp_all add: ex_hooks_def ex_hooks_latched_def create_capture_hook_def new_workflow_fields)

lemma ex_task_login_Inr:
  "execute_task ex_task_login ''Open Linear'' []
     = Inr (fst (projr (execute_task ex_task_login ''Open Linear'' [])),
            snd (projr (execute_task ex_task_login ''Open Linear'' [])))"
proof -
  have key: "can_finish ex_task_login"
    by (simp add: can_finish_def ex_task_login_def ex_task_def)
  from execute_task_total [OF key] obtain w fx'
    where "execute_task ex_task_login ''Open Linear'' [] = Inr (w, fx')" by blast
  then show ?thesis by simp
qed


lemma ex_step_unobserved_facts:
  "get_browser_state_summary ex_step_unobserved = Inl (Exception ''target closed'')"
  by (simp add: ex_step_unobserved_def)

lemma ex_step_pause_raises_facts:
  "get_browser_state_summary ex_step_pause_raises = Inr (Some ''https://linear.app/login'')"
  "get_current_page_title ex_step_pause_raises = Inr (Some ''Team Board'')"
  "agent_pause ex_step_pause_raises = Some (Exception ''pause failed'')"
  by (simp_all add: ex_step_pause_raises_def ex_step_login_def ex_step_def)

lemma ex_task_facts:
  "run_outcome ex_task = Inr \<lparr>truthy = Inr True, str_result = Inr ''done''\<rparr>"
  "now_completed ex_task = 3000000" "now_failed ex_task = 5000000" "now_started_at ex_task = 0"
  "hook_calls ex_task = []"
  by (simp_all add: ex_task_def)


lemma ex_task_pause_raises_trace:
  "\<not> isl (execute_task ex_task_pause_raises ''Open Linear'' [])
   \<and> steps (fst (projr (execute_task ex_task_pause_raises ''Open Linear'' []))) = []
   \<and> success (fst (projr (execute_task ex_task_pause_raises ''Open Linear'' [])))
   \<and> error_summary (fst (projr (execute_task ex_task_pause_raises ''Open Linear'' []))) = None
   \<and> final_result (fst (projr (execute_task ex_task_pause_raises ''Open Linear'' [])))
      = Some ''done''"
proof -
  let ?q = "''Open Linear''"
  let ?env = ex_task_pause_raises
  let ?d = "output_dir_of ?env ?q"
  let ?s0 = "execute_task_setup ?env ?q []"
  have key: "can_finish ?env"
    by (simp add: can_finish_def ex_task_pause_raises_def ex_task_def)
  from execute_task_total [OF key] obtain w fx'
    where E: "execute_task ?env ?q [] = Inr (w, fx')" by blast
  have out: "run_outcome ?env = Inr \<lparr>truthy = Inr True, str_result = Inr ''done''\<rparr>"
    and calls: "hook_calls ?env = [StepEnd ex_step_pause_raises]"
    by (simp_all add: ex_task_pause_raises_def ex_task_def)
  have "workflow (on_step_end ?d ex_step_pause_raises ?s0) = workflow ?s0"
    using on_step_end_handoff_raised [of ex_step_pause_raises _ _ ?s0 _ ?d]
    by (simp add: ex_step_pause_raises_facts ex_pages execute_task_setup_facts)
  then have st: "steps (workflow (run_hooks ?d (hook_calls ?env) ?s0)) = []"
    by (simp add: calls execute_task_setup_facts new_workflow_fields)
  from execute_task_returned [OF E out, of True "''done''"]
  have "success w" "error_summary w = None" "final_result w = Some ''done''"
    by (simp_all add: hooks_workflow_fields)
  with execute_task_steps [OF E] st E show ?thesis by simp
qed

lemma ex_task_raises_Inr:
  "execute_task ex_task_raises ''Open Linear'' []
     = Inr (fst (projr (execute_task ex_task_raises ''Open Linear'' [])),
            snd (projr (execute_task ex_task_raises ''Open Linear'' [])))"
proof -
  have key: "can_finish ex_task_raises"
    by (simp add: can_finish_def ex_task_raises_def ex_task_def)
  from execute_task_total [OF key] obtain w fx'
    where "execute_task ex_task_raises ''Open Linear'' [] = Inr (w, fx')" by blast
  then show ?thesis by simp
qed

lemma ex_task_pause_raises_Inr:
  "execute_task ex_task_pause_raises ''Open Linear'' []
     = Inr (fst (projr (execute_task ex_task_pause_raises ''Open Linear'' [])),
            snd (projr (execute_task ex_task_pause_raises ''Open Linear'' [])))"
  using ex_task_pause_raises_trace by (simp add: sum.collapse(2))


lemma ex_task_no_text_facts:
  "run_outcome ex_task_no_text
     = Inr \<lparr>truthy = Inr True, str_result = Inl (Exception ''no text'')\<rparr>"
  "now_completed ex_task_no_text = 3000000" "now_failed ex_task_no_text = 5000000"
  "hook_calls ex_task_no_text = []" "now_started_at ex_task_no_text = 0"
  "can_finish ex_task_no_text"
  by (simp_all add: ex_task_no_text_def ex_task_def can_finish_def)

lemma ex_task_raises_facts:
  "run_outcome ex_task_raises = Inl (Exception ''step budget exceeded'')"
  "now_completed ex_task_raises = 3000000" "now_failed ex_task_raises = 5000000"
  "hook_calls ex_task_raises = []" "now_started_at ex_task_raises = 0"
  by (simp_all add: ex_task_raises_def ex_task_def)

lemma ex_task_Inr:
  "execute_task ex_task ''Open Linear'' []
     = Inr (fst (projr (execute_task ex_task ''Open Linear'' [])),
            snd (projr (execute_task ex_task ''Open Linear'' [])))"
proof -
  have key: "can_finish ex_task"
    by (simp add: can_finish_def ex_task_def)
  from execute_task_total [OF key] obtain w fx'
    where "execute_task ex_task ''Open Linear'' [] = Inr (w, fx')" by blast
  then show ?thesis by simp
qed

lemma ex_task_no_text_Inr:
  "execute_task ex_task_no_text ''Open Linear'' []
     = Inr (fst (projr (execute_task ex_task_no_text ''Open Linear'' [])),
            snd (projr (execute_task ex_task_no_text ''Open Linear'' [])))"
proof -
  from execute_task_total [OF ex_task_no_text_facts(6)] obtain w fx'
    where "execute_task ex_task_no_text ''Open Linear'' [] = Inr (w, fx')" by blast
  then show ?thesis by simp
qed


section \<open>The batch of tasks\<close>

lemma execute_task_final_fields:
  assumes E: "execute_task env q fx = Inr (w, fx')"
  shows "original_query w = q \<and> finalized_by env w"
proof (cases "run_outcome env")
  case (Inl e)
  from execute_task_raised [OF E Inl] Inl show ?thesis
    by (simp add: hooks_workflow_fields finalized_by_def)
next
  case out: (Inr res)
  show ?thesis
  proof (cases "truthy res")
    case (Inl e)
    with execute_task_conversion_raised [OF E out, of e] out show ?thesis
      by (simp add: hooks_workflow_fields finalized_by_def)
  next
    case tr: (Inr b)
    show ?thesis
    proof (cases "b \<and> isl (str_result res)")
      case True
      then obtain e where "str_result res = Inl e" by (cases "str_result res") auto
      with True tr out execute_task_conversion_raised [OF E out, of e] show ?thesis
        by (simp add: hooks_workflow_fields finalized_by_def)
    next
      case nf: False
      show ?thesis
      proof (cases b)
        case True
        with nf obtain t where t: "str_result res = Inr t" by (cases "str_result res") auto
        from execute_task_returned [OF E out tr, of t] True t out tr show ?thesis
          by (simp add: hooks_workflow_fields finalized_by_def)
      next
        case False
        from execute_task_returned [OF E out tr, of "[]"] False out tr show ?thesis
          by (simp add: hooks_workflow_fields finalized_by_def)
      qed
    qed
  qed
qed

lemma execute_task_persisted_trace:
  assumes E: "execute_task env q fx = Inr (w, fx')"
  shows "persisted_trace_of env q (output_dir_of env q @ ''/workflow.json'', w)"
  using execute_task_final_fields [OF E] execute_task_workflow_indep [OF E]
    execute_task_steps [OF E]
    hooks_workflow_indep [of "output_dir_of env q" "hook_calls env" env q fx]
  by (simp add: persisted_trace_of_def)

lemma run_tasks_persisted:
  assumes "\<forall>i < length ts. can_finish (envs (k + i))"
  shows "fst (run_tasks envs k ts fx) = None
     \<and> (\<exists>ws. length ws = length ts
            \<and> persisted (snd (run_tasks envs k ts fx)) = persisted fx @ ws
            \<and> (\<forall>i < length ts. persisted_trace_of (envs (k + i)) (ts ! i) (ws ! i)))"
  using assms
proof (induction ts arbitrary: k fx)
  case Nil
  then show ?case by simp
next
  case (Cons task rest)
  from Cons.prems have key: "can_finish (envs k)"
    by auto
  from execute_task_total [OF key] obtain w fx1
    where E: "execute_task (envs k) task fx = Inr (w, fx1)" by blast
  let ?p = "(output_dir_of (envs k) task @ ''/workflow.json'', w)"
  have run: "run_tasks envs k (task # rest) fx = run_tasks envs (Suc k) rest (fx1 @ [Sleep 2])"
    using E by simp
  have "\<forall>i < length rest. can_finish (envs (Suc k + i))"
  proof (intro allI impI)
    fix i assume "i < length rest"
    then have "Suc i < length (task # rest)" by simp
    with Cons.prems have "can_finish (envs (k + Suc i))"
      by blast
    then show "can_finish (envs (Suc k + i))"
      by simp
  qed
  from Cons.IH [OF this, of "fx1 @ [Sleep 2]"] obtain ws
    where none: "fst (run_tasks envs (Suc k) rest (fx1 @ [Sleep 2])) = None"
      and len: "length ws = length rest"
      and per: "persisted (snd (run_tasks envs (Suc k) rest (fx1 @ [Sleep 2])))
                = persisted (fx1 @ [Sleep 2]) @ ws"
      and each: "\<forall>i < length rest. persisted_trace_of (envs (Suc k + i)) (rest ! i) (ws ! i)"
    by blast
  have p1: "persisted (fx1 @ [Sleep 2]) = persisted fx @ [?p]"
    using execute_task_persisted [OF E] by (simp add: persisted_append)
  have all: "\<forall>i < length (task # rest).
               persisted_trace_of (envs (k + i)) ((task # rest) ! i) ((?p # ws) ! i)"
  proof (intro allI impI)
    fix i assume i: "i < length (task # rest)"
    show "persisted_trace_of (envs (k + i)) ((task # rest) ! i) ((?p # ws) ! i)"
    proof (cases i)
      case 0
      with execute_task_persisted_trace [OF E] show ?thesis by simp
    next
      case (Suc j)
      with i each show ?thesis by simp
    qed
  qed
  have "length (?p # ws) = length (task # rest)" using len by simp
  moreover have "persisted (snd (run_tasks envs k (task # rest) fx)) = persisted fx @ (?p # ws)"
    using run per p1 by simp
  ultimately have "\<exists>ws'. length ws' = length (task # rest)
        \<and> persisted (snd (run_tasks envs k (task # rest) fx)) = persisted fx @ ws'
        \<and> (\<forall>i < length (task # rest).
              persisted_trace_of (envs (k + i)) ((task # rest) ! i) (ws' ! i))"
    using all by blast
  with none run show ?case by simp
qed

lemma run_tasks_aborted:
  assumes "j < length ts" and "\<not> can_finish (envs (k + j))"
    and "\<forall>i < j. can_finish (envs (k + i))"
  shows "fst (run_tasks envs k ts fx) \<noteq> None
     \<and> length (persisted (snd (run_tasks envs k ts fx))) = length (persisted fx) + j"
  using assms
proof (induction ts arbitrary: j k fx)
  case Nil
  then show ?case by simp
next
  case (Cons task rest)
  show ?case
  proof (cases j)
    case 0
    with Cons.prems have "\<not> can_finish (envs k)" by simp
    from execute_task_aborted [OF this, of task fx] obtain r fx1
      where "execute_task (envs k) task fx = Inl (r, fx1)" and "persisted fx1 = persisted fx"
      by blast
    with 0 show ?thesis by simp
  next
    case (Suc j')
    with Cons.prems have "can_finish (envs (k + 0))" by blast
    then have key: "can_finish (envs k)" by simp
    from execute_task_total [OF key] obtain w fx1
      where E: "execute_task (envs k) task fx = Inr (w, fx1)" by blast
    have run: "run_tasks envs k (task # rest) fx = run_tasks envs (Suc k) rest (fx1 @ [Sleep 2])"
      using E by simp
    have a: "j' < length rest" using Cons.prems(1) Suc by simp
    have b: "\<not> can_finish (envs (Suc k + j'))" using Cons.prems(2) Suc by simp
    have c: "\<forall>i < j'. can_finish (envs (Suc k + i))"
    proof (intro allI impI)
      fix i assume "i < j'"
      then have "Suc i < j" using Suc by simp
      with Cons.prems(3) have "can_finish (envs (k + Suc i))" by blast
      then show "can_finish (envs (Suc k + i))" by simp
    qed
    from Cons.IH [OF a b c, of "fx1 @ [Sleep 2]"]
    have "fst (run_tasks envs (Suc k) rest (fx1 @ [Sleep 2])) \<noteq> None"
      and "length (persisted (snd (run_tasks envs (Suc k) rest (fx1 @ [Sleep 2]))))
           = length (persisted (fx1 @ [Sleep 2])) + j'"
      by blast+
    moreover have "length (persisted (fx1 @ [Sleep 2])) = length (persisted fx) + 1"
      using execute_task_persisted [OF E] by (simp add: persisted_append)
    ultimately show ?thesis using run Suc by simp
  qed
qed

lemma ex_batch_facts:
  "ex_batch 0 = ex_task_raises_silent" "ex_batch (Suc i) = ex_task"
  "can_finish (ex_batch i)"
  "run_outcome ex_task_raises_silent = Inl (Exception [])"
  by (simp_all add: ex_batch_def ex_task_raises_silent_def ex_task_def can_finish_def)

lemma persisted_main:
  assumes "fst (run_tasks (task_envs menv) 0 tasks fx0) = None"
    and "main_api_key menv \<noteq> None" and "main_api_key menv \<noteq> Some []"
    and "init_result menv = None" and "kill_result menv = None"
    and "fx0 = [Print (nl @ ''Initializing shared Browser and LLM settings.'' @ nl)]"
  shows "fst (main menv) = None
     \<and> persisted (snd (main menv)) = persisted (snd (run_tasks (task_envs menv) 0 tasks fx0))"
  using assms by (simp add: main_def Let_def persisted_append)

lemma ex_batch_trace:
  "fst (run_tasks ex_batch 0 [''Open Linear'', ''Open Notion''] []) = None
   \<and> map (\<lambda>pw. (success (snd pw), error_summary (snd pw)))
        (persisted (snd (run_tasks ex_batch 0 [''Open Linear'', ''Open Notion''] [])))
      = [(False, Some []), (True, None)]"
proof -
  let ?q1 = "''Open Linear''" and ?q2 = "''Open Notion''"
  from execute_task_total [of "ex_batch 0" ?q1 "[]"] ex_batch_facts(3) [of 0] obtain w1 fx1
    where E1: "execute_task (ex_batch 0) ?q1 [] = Inr (w1, fx1)" by blast
  from execute_task_total [of "ex_batch (Suc 0)" ?q2 "fx1 @ [Sleep 2]"] ex_batch_facts(3) [of "Suc 0"]
  obtain w2 fx2
    where E2: "execute_task (ex_batch (Suc 0)) ?q2 (fx1 @ [Sleep 2]) = Inr (w2, fx2)" by blast
  have run: "run_tasks ex_batch 0 [?q1, ?q2] [] = (None, fx2 @ [Sleep 2])"
    using E1 E2 by simp
  have out1: "run_outcome (ex_batch 0) = Inl (Exception [])"
    by (simp add: ex_batch_facts)
  have out2: "run_outcome (ex_batch (Suc 0)) = Inr \<lparr>truthy = Inr True, str_result = Inr ''done''\<rparr>"
    by (simp add: ex_batch_facts ex_task_facts)
  from execute_task_raised [OF E1 out1]
  have w1: "success w1 = False" "error_summary w1 = Some []" by simp_all
  from execute_task_returned [OF E2 out2, of True "''done''"]
  have w2: "success w2 = True" "error_summary w2 = None"
    by (simp_all add: hooks_workflow_fields)
  have "persisted (fx2 @ [Sleep 2])
        = [(output_dir_of (ex_batch 0) ?q1 @ ''/workflow.json'', w1),
           (output_dir_of (ex_batch (Suc 0)) ?q2 @ ''/workflow.json'', w2)]"
    using execute_task_persisted [OF E1] execute_task_persisted [OF E2]
    by (simp add: persisted_append)
  with run w1 w2 show ?thesis by simp
qed

lemma ex_batch_unwritten_trace:
  "run_tasks ex_batch_unwritten 0 [''Open Linear'', ''Open Notion''] []
   = (Some (Raised (Exception ''disk full'')),
      execute_task_announce ''Open Linear'' []
      @ [Mkdir (output_dir_of (ex_batch_unwritten 0) ''Open Linear''),
         Print ''Starting agent.'',
         Print (''If login appears, you will log in manually.'' @ nl),
         Print (nl @ ''Failed: step budget exceeded'')])"
  by (simp add: ex_batch_unwritten_def ex_task_raises_def ex_task_def execute_task_def
        execute_task_try_def execute_task_except_def agent_run_def execute_task_setup_def
        create_capture_hook_def emit_def Let_def)

lemma ex_request_accent_name:
  "safe_name_of (\<lambda>cp. True) ex_request_accent
     = ''Caf'' @ [char_of (195 :: nat), char_of (169 :: nat)] @ ''_menu_''"
  "safe_name_of (\<lambda>cp. False) ex_request_accent = ''Caf__menu_''"
  by code_simp+

section \<open>The numbers of the records\<close>

lemma ex_task_gap_trace:
  "\<not> isl (execute_task ex_task_gap ''Open Linear'' [])
   \<and> map step_number (steps (fst (projr (execute_task ex_task_gap ''Open Linear'' [])))) = [2]"
proof -
  let ?q = "''Open Linear''"
  let ?d = "output_dir_of ex_task_gap ?q"
  let ?s0 = "execute_task_setup ex_task_gap ?q []"
  have key: "can_finish ex_task_gap"
    by (simp add: can_finish_def ex_task_gap_def ex_task_def)
  from execute_task_total [OF key] obtain w fx'
    where E: "execute_task ex_task_gap ?q [] = Inr (w, fx')" by blast
  let ?s1 = "on_step_end ?d ex_step_unobserved ?s0"
  have s1: "?s1 = emit (Print (''Capture error: '' @ str_exn (Exception ''target closed'')))
                    (?s0\<lparr>count := count ?s0 + 1\<rparr>)"
    by (rule on_step_end_unobserved) (simp add: ex_step_unobserved_def)
  then have f1: "count ?s1 = 1" "\<not> login_handled ?s1" "steps (workflow ?s1) = []"
    by (simp_all add: emit_def execute_task_setup_facts new_workflow_fields)
  have "steps (workflow (on_step_end ?d ex_step ?s1))
        = steps (workflow ?s1)
          @ [captured_step (count ?s1 + 1) (now_timestamp ex_step) (action_label [])
               (current_url_of (Some ''https://linear.app/board''))
               (current_title_of (Some ''Team Board''))
               (''step_'' @ fmt_03d (count ?s1 + 1) @ ''.png'')
               (case step_start_time ?s1 of
                  None \<Rightarrow> None
                | Some t0 \<Rightarrow> Some (real_of_int (now_duration ex_step - t0) / 1000000 * 1000))]"
    using on_step_end_captured [of ex_step _ _ ?s1 _ _ _ ?d]
    by (simp add: ex_step_facts ex_pages)
  with f1 have "map step_number (steps (workflow (on_step_end ?d ex_step ?s1))) = [2]"
    by (simp add: captured_step_def)
  moreover have "hook_calls ex_task_gap = [StepEnd ex_step_unobserved, StepEnd ex_step]"
    by (simp add: ex_task_gap_def)
  ultimately have "map step_number (steps w) = [2]"
    using execute_task_steps [OF E] by simp
  with E show ?thesis by simp
qed

text \<open>
  C1, as stated, fails. In the episode \<open>ex_task_gap\<close> the first call of
  \<open>on_step_end\<close> cannot observe the page and appends nothing, the second
  call captures: the only record of the trace, at index 0, has number 2.
\<close>

theorem step_number_gap_counterexample:
  "\<not> isl (execute_task ex_task_gap ''Open Linear'' [])
   \<and> map step_number (steps (fst (projr (execute_task ex_task_gap ''Open Linear'' [])))) = [2]
   \<and> step_number (steps (fst (projr (execute_task ex_task_gap ''Open Linear'' []))) ! 0) \<noteq> 0 + 1"
proof -
  from ex_task_gap_trace
  have m: "map step_number (steps (fst (projr (execute_task ex_task_gap ''Open Linear'' [])))) = [2]"
    by blast
  from arg_cong [OF m, of length]
  have "length (steps (fst (projr (execute_task ex_task_gap ''Open Linear'' [])))) = 1"
    by simp
  then have "step_number (steps (fst (projr (execute_task ex_task_gap ''Open Linear'' []))) ! 0)
             = map step_number (steps (fst (projr (execute_task ex_task_gap ''Open Linear'' [])))) ! 0"
    by simp
  with m ex_task_gap_trace show ?thesis by simp
qed


text \<open>
  C1, amended. A record carries the value of the call counter of
  \<open>on_step_end\<close>, not its position. Every call advances the counter, and
  appends nothing or one record whose number is the new value of the
  counter. So the numbers of the records of a trace are exactly the
  ordinals of the calls of \<open>on_step_end\<close> that appended a record: a call
  that fails to capture leaves a gap. The numbers increase strictly, so
  none is repeated; the record at index \<open>i\<close> has a number of at least
  \<open>i + 1\<close> and at most the number of calls; and when every call has
  appended a record, it is \<open>i + 1\<close>.
\<close>

theorem step_numbers_follow_call_counter:
  assumes "execute_task env q fx = Inr (w, fx')"
  shows "map step_number (steps w)
       = capture_ordinals (output_dir_of env q) (hook_calls env) (execute_task_setup env q fx) 0
     \<and> count (on_step_end d senv s) = count s + 1
     \<and> (steps (workflow (on_step_end d senv s)) = steps (workflow s)
        \<or> (\<exists>r. steps (workflow (on_step_end d senv s)) = steps (workflow s) @ [r]
               \<and> step_number r = count s + 1))
     \<and> sorted_wrt (<) (map step_number (steps w))
     \<and> (\<forall>i < length (steps w).
           int i + 1 \<le> step_number (steps w ! i)
           \<and> step_number (steps w ! i) \<le> int (step_ends (hook_calls env)))
     \<and> (length (steps w) = step_ends (hook_calls env) \<longrightarrow>
           (\<forall>i < length (steps w). step_number (steps w ! i) = int i + 1))"
proof -
  let ?s0 = "execute_task_setup env q fx"
  let ?h = "run_hooks (output_dir_of env q) (hook_calls env) ?s0"
  let ?ns = "map step_number (steps w)"
  let ?c = "int (step_ends (hook_calls env))"
  have st: "steps w = steps (workflow ?h)" by (rule execute_task_steps [OF assms])
  have "count ?s0 = int 0" by (simp add: execute_task_setup_facts)
  from run_hooks_ordinals [OF this, of "output_dir_of env q" "hook_calls env"]
  have ords: "?ns = capture_ordinals (output_dir_of env q) (hook_calls env) ?s0 0"
    by (simp add: st execute_task_setup_facts new_workflow_fields)
  have c: "count ?h = ?c"
    by (simp add: run_hooks_count execute_task_setup_facts)
  from execute_task_trace_inv [of env q fx] st c
  have sorted: "sorted_wrt (<) ?ns"
    and lo: "\<forall>x \<in> set ?ns. 1 \<le> x" and hi: "\<forall>x \<in> set ?ns. x \<le> ?c"
    by (auto simp: trace_inv_def)
  have lower: "int i + 1 \<le> step_number (steps w ! i)" if "i < length (steps w)" for i
    using increasing_nth_lower [OF sorted lo, of i] that by simp
  have upper: "step_number (steps w ! i) \<le> ?c - int (length (steps w) - 1 - i)"
    if "i < length (steps w)" for i
    using increasing_nth_upper [OF sorted hi, of i "length (steps w) - 1 - i"] that by simp
  have top: "step_number (steps w ! i) \<le> ?c" if "i < length (steps w)" for i
    using hi that by simp
  have exact: "step_number (steps w ! i) = int i + 1"
    if "length (steps w) = step_ends (hook_calls env)" and "i < length (steps w)" for i
    using lower [OF that(2)] upper [OF that(2)] that by linarith
  from ords on_step_end_appends [of d senv s] sorted lower top exact show ?thesis by blast
qed

theorem step_numbers_follow_call_counter_witness:
  "execute_task ex_task_gap ''Open Linear'' []
     = Inr (fst (projr (execute_task ex_task_gap ''Open Linear'' [])),
            snd (projr (execute_task ex_task_gap ''Open Linear'' [])))
   \<and> hook_calls ex_task_gap = [StepEnd ex_step_unobserved, StepEnd ex_step]
   \<and> capture_ordinals (output_dir_of ex_task_gap ''Open Linear'') (hook_calls ex_task_gap)
        (execute_task_setup ex_task_gap ''Open Linear'' []) 0 = [2]
   \<and> map step_number (steps (fst (projr (execute_task ex_task_gap ''Open Linear'' [])))) = [2]
   \<and> count (on_step_end ''out'' ex_step_unobserved ex_hooks) = 1
   \<and> steps (workflow (on_step_end ''out'' ex_step_unobserved ex_hooks)) = []
   \<and> sorted_wrt (<)
        (map step_number (steps (fst (projr (execute_task ex_task_gap ''Open Linear'' [])))))
   \<and> 0 < length (steps (fst (projr (execute_task ex_task_gap ''Open Linear'' []))))
   \<and> int 0 + 1 \<le> step_number (steps (fst (projr (execute_task ex_task_gap ''Open Linear'' []))) ! 0)
   \<and> step_number (steps (fst (projr (execute_task ex_task_gap ''Open Linear'' []))) ! 0) \<le> 2
   \<and> length (steps (fst (projr (execute_task ex_task_login ''Open Linear'' [])))) = 3
   \<and> step_number (steps (fst (projr (execute_task ex_task_login ''Open Linear'' []))) ! 2)
       = int 2 + 1"
proof -
  let ?q = "''Open Linear''"
  let ?w = "fst (projr (execute_task ex_task_gap ?q []))"
  let ?v = "fst (projr (execute_task ex_task_login ?q []))"
  from ex_task_gap_trace
  have E: "execute_task ex_task_gap ?q [] = Inr (?w, snd (projr (execute_task ex_task_gap ?q [])))"
    and m: "map step_number (steps ?w) = [2]"
    by (simp_all add: sum.collapse(2))
  from arg_cong [OF m, of length] have len: "0 < length (steps ?w)"
    by simp
  have calls: "hook_calls ex_task_gap = [StepEnd ex_step_unobserved, StepEnd ex_step]"
    by (simp add: ex_task_gap_def)
  then have n: "int (step_ends (hook_calls ex_task_gap)) = 2"
    by simp
  note t = step_numbers_follow_call_counter
             [OF E, where d = "''out''" and senv = ex_step_unobserved and s = ex_hooks]
  from t have ords: "map step_number (steps ?w)
       = capture_ordinals (output_dir_of ex_task_gap ?q) (hook_calls ex_task_gap)
           (execute_task_setup ex_task_gap ?q []) 0"
    and cnt: "count (on_step_end ''out'' ex_step_unobserved ex_hooks) = count ex_hooks + 1"
    and sorted: "sorted_wrt (<) (map step_number (steps ?w))"
    and bounds: "\<forall>i < length (steps ?w).
           int i + 1 \<le> step_number (steps ?w ! i)
           \<and> step_number (steps ?w ! i) \<le> int (step_ends (hook_calls ex_task_gap))"
    by blast+
  from ords m have o2: "capture_ordinals (output_dir_of ex_task_gap ?q) (hook_calls ex_task_gap)
           (execute_task_setup ex_task_gap ?q []) 0 = [2]"
    by simp
  from cnt have c1: "count (on_step_end ''out'' ex_step_unobserved ex_hooks) = 1"
    by (simp add: ex_hooks_facts)
  have "on_step_end ''out'' ex_step_unobserved ex_hooks
        = emit (Print (''Capture error: '' @ str_exn (Exception ''target closed'')))
            (ex_hooks\<lparr>count := count ex_hooks + 1\<rparr>)"
    by (rule on_step_end_unobserved) (simp add: ex_step_unobserved_def)
  then have none: "steps (workflow (on_step_end ''out'' ex_step_unobserved ex_hooks)) = []"
    by (simp add: emit_def ex_hooks_facts)
  from bounds len n
  have b0: "int 0 + 1 \<le> step_number (steps ?w ! 0)" and b1: "step_number (steps ?w ! 0) \<le> 2"
    by auto
  from ex_task_login_trace
  have "map (\<lambda>r. (step_number r, required_manual_login r, screenshot r)) (steps ?v)
        = [(1, False, ''step_001.png''), (2, True, []), (3, False, ''step_003.png'')]"
    by blast
  from arg_cong [OF this, of length] have l3: "length (steps ?v) = 3"
    by simp
  have "step_ends (hook_calls ex_task_login) = 3"
    by (simp add: ex_task_login_def)
  with step_numbers_follow_call_counter [OF ex_task_login_Inr] l3
  have "\<forall>i < length (steps ?v). step_number (steps ?v ! i) = int i + 1"
    by simp
  with l3 have e3: "step_number (steps ?v ! 2) = int 2 + 1"
    by simp
  from E calls o2 m c1 none sorted len b0 b1 l3 e3 show ?thesis by simp
qed

section \<open>The one-shot latch\<close>

lemma on_step_end_sets_latch:
  assumes "steps (workflow (on_step_end d env s)) = steps (workflow s) @ [r]"
    and "required_manual_login r"
  shows "\<not> login_handled s \<and> login_handled (on_step_end d env s)"
proof -
  let ?s' = "on_step_end d env s"
  from on_step_end_outcome [of d env s]
  have "step_summary (count s + 1) s ?s'" by blast
  then consider
      (same) "workflow ?s' = workflow s"
    | (manual) r' where "workflow ?s' = (workflow s)\<lparr>steps := steps (workflow s) @ [r']\<rparr>"
        "\<not> login_handled s" "login_handled ?s'"
    | (capture) r' where "workflow ?s' = (workflow s)\<lparr>steps := steps (workflow s) @ [r']\<rparr>"
        "\<not> required_manual_login r'"
    unfolding step_summary_def by blast
  then show ?thesis
  proof cases
    case same
    with assms(1) show ?thesis by simp
  next
    case manual
    then show ?thesis by simp
  next
    case capture
    with assms show ?thesis by simp
  qed
qed

text \<open>
  C2. The trace of an episode holds at most one record of a manual login.
  A call of \<open>on_step_end\<close> that appends such a record finds the latch
  \<open>login_handled\<close> unset and sets it; and once the latch is set, whatever
  calls of the hooks follow, it stays set, no record of a manual login is
  appended, \<open>agent.pause()\<close> is not called and \<open>waiting_for_login\<close> is not
  touched.
\<close>

theorem manual_login_at_most_once:
  "(execute_task env q fx = Inr (w, fx') \<longrightarrow>
      length (filter required_manual_login (steps w)) \<le> 1)
   \<and> (steps (workflow (on_step_end d env' s)) = steps (workflow s) @ [r]
        \<and> required_manual_login r \<longrightarrow>
      \<not> login_handled s \<and> login_handled (on_step_end d env' s))
   \<and> (login_handled s0 \<longrightarrow>
      login_handled (run_hooks d es s0)
      \<and> waiting_for_login (run_hooks d es s0) = waiting_for_login s0
      \<and> count_list (effects (run_hooks d es s0)) Pause = count_list (effects s0) Pause
      \<and> filter required_manual_login (steps (workflow (run_hooks d es s0)))
          = filter required_manual_login (steps (workflow s0)))"
proof -
  have "length (filter required_manual_login (steps w)) \<le> 1"
    if E: "execute_task env q fx = Inr (w, fx')"
    using execute_task_trace_inv [of env q fx] execute_task_steps [OF E]
    by (simp add: trace_inv_def)
  with on_step_end_sets_latch [of d env' s r] run_hooks_latched [of s0 d es]
  show ?thesis by blast
qed

theorem manual_login_at_most_once_witness:
  "length (filter required_manual_login
       (steps (fst (projr (execute_task ex_task_login ''Open Linear'' []))))) \<le> 1
   \<and> map required_manual_login
       (steps (fst (projr (execute_task ex_task_login ''Open Linear'' []))))
      = [False, True, False]
   \<and> \<not> login_handled ex_hooks
   \<and> login_handled (on_step_end ''out'' ex_step_login ex_hooks)
   \<and> login_handled ex_hooks_latched
   \<and> login_handled (run_hooks ''out'' [StepEnd ex_step_login] ex_hooks_latched)
   \<and> filter required_manual_login
        (steps (workflow (run_hooks ''out'' [StepEnd ex_step_login] ex_hooks_latched))) = []"
proof -
  let ?r = "manual_login_step 1 11 (current_url_of (Some ''https://linear.app/login''))
              (current_title_of (Some ''Team Board''))"
  have h2: "steps (workflow (on_step_end ''out'' ex_step_login ex_hooks))
              = steps (workflow ex_hooks) @ [?r] \<and> required_manual_login ?r"
    using on_step_end_handoff [of ex_step_login _ _ ex_hooks "''out''"]
    by (simp add: ex_step_login_facts ex_pages ex_hooks_facts manual_login_step_def)
  let ?xs = "steps (fst (projr (execute_task ex_task_login ''Open Linear'' [])))"
  from ex_task_login_trace
  have m: "map (\<lambda>r. (step_number r, required_manual_login r, screenshot r)) ?xs
           = [(1, False, ''step_001.png''), (2, True, []), (3, False, ''step_003.png'')]"
    by blast
  have "map required_manual_login ?xs
        = map (\<lambda>p. fst (snd p))
            (map (\<lambda>r. (step_number r, required_manual_login r, screenshot r)) ?xs)"
    by (simp add: comp_def)
  also have "\<dots> = [False, True, False]"
    unfolding m by simp
  finally have flags: "map required_manual_login ?xs = [False, True, False]" .
  from manual_login_at_most_once
         [of ex_task_login "''Open Linear''" "[]"
             "fst (projr (execute_task ex_task_login ''Open Linear'' []))"
             "snd (projr (execute_task ex_task_login ''Open Linear'' []))"
             "''out''" ex_step_login ex_hooks ?r ex_hooks_latched "[StepEnd ex_step_login]"]
       ex_task_login_Inr h2 flags
  show ?thesis by (simp add: ex_hooks_facts)
qed


section \<open>The record of a manual login\<close>

lemma manual_login_appends:
  assumes "manual_login env n u t s = (None, s')"
  shows "steps (workflow s') = steps (workflow s) @ [manual_login_step n (now_timestamp env) u t]"
  using manual_login_outcome [OF assms] by auto

lemma capture_step_appends:
  assumes "capture_step d env n u t s = (None, s')"
  shows "\<exists>r. steps (workflow s') = steps (workflow s) @ [r]
           \<and> \<not> required_manual_login r \<and> screenshot r \<noteq> [] \<and> CapturedStep.success r"
proof -
  from capture_step_summary [OF assms] have "step_summary n s s'" by blast
  moreover from capture_step_outcome [OF assms]
  have "steps (workflow s') \<noteq> steps (workflow s)"
    and "login_handled s' = login_handled s"
    by (auto dest: arg_cong [where f = steps])
  ultimately show ?thesis
    unfolding step_summary_def by auto
qed

text \<open>
  C3. In the trace of an episode every record has \<open>success = True\<close>, and a
  record has \<open>required_manual_login = True\<close> exactly when its screenshot
  reference is empty. The branch of a manual login appends a record with
  the flag set, no screenshot and \<open>success = True\<close>; the branch of a capture
  appends a record with the flag unset and a screenshot.
\<close>

theorem manual_login_record_shape:
  "(execute_task env q fx = Inr (w, fx') \<longrightarrow>
      (\<forall>r \<in> set (steps w).
         CapturedStep.success r \<and> (required_manual_login r \<longleftrightarrow> screenshot r = [])))
   \<and> (manual_login env' n u t s = (None, s') \<longrightarrow>
        (\<exists>r. steps (workflow s') = steps (workflow s) @ [r]
            \<and> required_manual_login r \<and> screenshot r = [] \<and> CapturedStep.success r))
   \<and> (capture_step d envc nc uc tc sc = (None, sc') \<longrightarrow>
        (\<exists>r. steps (workflow sc') = steps (workflow sc) @ [r]
            \<and> \<not> required_manual_login r \<and> screenshot r \<noteq> [] \<and> CapturedStep.success r))"
proof -
  have a: "\<forall>r \<in> set (steps w).
         CapturedStep.success r \<and> (required_manual_login r \<longleftrightarrow> screenshot r = [])"
    if E: "execute_task env q fx = Inr (w, fx')"
    using execute_task_trace_inv [of env q fx] execute_task_steps [OF E]
    by (auto simp: trace_inv_def)
  have b: "\<exists>r. steps (workflow s') = steps (workflow s) @ [r]
            \<and> required_manual_login r \<and> screenshot r = [] \<and> CapturedStep.success r"
    if "manual_login env' n u t s = (None, s')"
    using manual_login_appends [OF that] manual_login_step_fields [of n "now_timestamp env'" u t]
    by blast
  from a b capture_step_appends [of d envc nc uc tc sc sc'] show ?thesis by blast
qed


theorem manual_login_record_shape_witness:
  "map (\<lambda>r. (step_number r, required_manual_login r, screenshot r))
       (steps (fst (projr (execute_task ex_task_login ''Open Linear'' []))))
     = [(1, False, ''step_001.png''), (2, True, []), (3, False, ''step_003.png'')]
   \<and> CapturedStep.success (steps (fst (projr (execute_task ex_task_login ''Open Linear'' []))) ! 1)
   \<and> fst (manual_login ex_step_login 1 ''https://linear.app/login'' ''Team Board'' ex_hooks) = None
   \<and> (\<exists>r. steps (workflow (snd (manual_login ex_step_login 1 ''https://linear.app/login''
                ''Team Board'' ex_hooks))) = [r]
          \<and> required_manual_login r \<and> screenshot r = [] \<and> CapturedStep.success r)
   \<and> fst (capture_step ''out'' ex_step 1 ''https://linear.app/board'' ''Team Board'' ex_hooks) = None
   \<and> (\<exists>r. steps (workflow (snd (capture_step ''out'' ex_step 1 ''https://linear.app/board''
                ''Team Board'' ex_hooks))) = [r]
          \<and> \<not> required_manual_login r \<and> screenshot r \<noteq> [] \<and> CapturedStep.success r)"
proof -
  let ?m = "manual_login ex_step_login 1 ''https://linear.app/login'' ''Team Board'' ex_hooks"
  let ?c = "capture_step ''out'' ex_step 1 ''https://linear.app/board'' ''Team Board'' ex_hooks"
  let ?xs = "steps (fst (projr (execute_task ex_task_login ''Open Linear'' [])))"
  have m: "fst ?m = None"
    by (simp add: manual_login_def ex_step_login_facts Let_def)
  then have hm: "?m = (None, snd ?m)" by (simp add: prod_eq_iff)
  have c: "fst ?c = None"
    by (simp add: capture_step_def ex_step_facts Let_def)
  then have hc: "?c = (None, snd ?c)" by (simp add: prod_eq_iff)
  from ex_task_login_trace
  have "length (map (\<lambda>r. (step_number r, required_manual_login r, screenshot r)) ?xs) = 3"
    by simp
  then have mem: "?xs ! 1 \<in> set ?xs" by simp
  from manual_login_record_shape
         [of ex_task_login "''Open Linear''" "[]"
             "fst (projr (execute_task ex_task_login ''Open Linear'' []))"
             "snd (projr (execute_task ex_task_login ''Open Linear'' []))"
             ex_step_login 1 "''https://linear.app/login''" "''Team Board''" ex_hooks "snd ?m"
             "''out''" ex_step 1 "''https://linear.app/board''" "''Team Board''" ex_hooks "snd ?c"]
    ex_task_login_Inr hm hc mem
  have "CapturedStep.success (?xs ! 1)"
    and "\<exists>r. steps (workflow (snd ?m)) = steps (workflow ex_hooks) @ [r]
          \<and> required_manual_login r \<and> screenshot r = [] \<and> CapturedStep.success r"
    and "\<exists>r. steps (workflow (snd ?c)) = steps (workflow ex_hooks) @ [r]
          \<and> \<not> required_manual_login r \<and> screenshot r \<noteq> [] \<and> CapturedStep.success r"
    by blast+
  with ex_task_login_trace m c show ?thesis
    by (simp add: ex_hooks_facts)
qed

section \<open>A step that cannot be observed\<close>

text \<open>
  C5, as stated, fails. When the driver cannot report the page, the call
  of \<open>on_step_end\<close> appends no record at all: here the trace is empty
  before the call and empty after it.
\<close>

theorem unobserved_step_counterexample:
  "get_browser_state_summary ex_step_unobserved = Inl (Exception ''target closed'')
   \<and> steps (workflow ex_hooks) = []
   \<and> steps (workflow (on_step_end ''out'' ex_step_unobserved ex_hooks)) = []"
proof -
  have "on_step_end ''out'' ex_step_unobserved ex_hooks
        = emit (Print (''Capture error: '' @ str_exn (Exception ''target closed'')))
            (ex_hooks\<lparr>count := count ex_hooks + 1\<rparr>)"
    by (rule on_step_end_unobserved) (simp add: ex_step_unobserved_facts)
  then show ?thesis
    by (simp add: emit_def ex_hooks_facts ex_step_unobserved_facts)
qed

text \<open>
  C5, amended. When the state of the browser or the title of the page
  cannot be read, or the screenshot cannot be taken, \<open>on_step_end\<close> catches
  the exception: it prints \<open>Capture error\<close> with the text of the exception,
  appends no record and leaves the workflow as it was, the counter being
  advanced all the same. The hook returns, and the run goes on with the
  next call of the hooks.
\<close>

theorem unobserved_step_is_skipped:
  assumes "get_browser_state_summary env = Inl e
     \<or> (\<exists>st. get_browser_state_summary env = Inr st \<and> get_current_page_title env = Inl e)
     \<or> (\<exists>st ti. get_browser_state_summary env = Inr st \<and> get_current_page_title env = Inr ti
           \<and> \<not> (is_login_page (current_url_of st) (current_title_of ti) \<and> \<not> login_handled s)
           \<and> screenshot_result env = Inl e)"
  shows "on_step_end d env s
           = emit (Print (''Capture error: '' @ str_exn e)) (s\<lparr>count := count s + 1\<rparr>)
     \<and> workflow (on_step_end d env s) = workflow s
     \<and> count (on_step_end d env s) = count s + 1
     \<and> effects (on_step_end d env s) = effects s @ [Print (''Capture error: '' @ str_exn e)]
     \<and> run_hooks d (StepEnd env # rest) s = run_hooks d rest (on_step_end d env s)"
proof -
  from on_step_end_unobserved [OF assms, of d]
  show ?thesis by (simp add: emit_def)
qed

theorem unobserved_step_is_skipped_witness:
  "get_browser_state_summary ex_step_unobserved = Inl (Exception ''target closed'')
   \<and> workflow (on_step_end ''out'' ex_step_unobserved ex_hooks) = workflow ex_hooks
   \<and> count (on_step_end ''out'' ex_step_unobserved ex_hooks) = 1
   \<and> effects (on_step_end ''out'' ex_step_unobserved ex_hooks)
      = [Print ''Capture error: target closed'']
   \<and> map step_number
        (steps (workflow (run_hooks ''out'' [StepEnd ex_step_unobserved, StepEnd ex_step] ex_hooks)))
      = [2]"
proof -
  let ?s1 = "on_step_end ''out'' ex_step_unobserved ex_hooks"
  have h: "get_browser_state_summary ex_step_unobserved = Inl (Exception ''target closed'')
     \<or> (\<exists>st. get_browser_state_summary ex_step_unobserved = Inr st
            \<and> get_current_page_title ex_step_unobserved = Inl (Exception ''target closed''))
     \<or> (\<exists>st ti. get_browser_state_summary ex_step_unobserved = Inr st
            \<and> get_current_page_title ex_step_unobserved = Inr ti
            \<and> \<not> (is_login_page (current_url_of st) (current_title_of ti)
                  \<and> \<not> login_handled ex_hooks)
            \<and> screenshot_result ex_step_unobserved = Inl (Exception ''target closed''))"
    by (simp add: ex_step_unobserved_facts)
  note u = unobserved_step_is_skipped [OF h, of "''out''" "[StepEnd ex_step]"]
  from u have f1: "workflow ?s1 = workflow ex_hooks" "count ?s1 = 1" "\<not> login_handled ?s1"
    "effects ?s1 = [Print ''Capture error: target closed'']"
    by (simp_all add: ex_hooks_facts emit_def ex_hooks_def create_capture_hook_def)
  from on_step_end_captured [of ex_step _ _ ?s1 _ _ _ "''out''"] f1
  have "map step_number (steps (workflow (on_step_end ''out'' ex_step ?s1))) = [2]"
    by (simp add: ex_step_facts ex_pages captured_step_def ex_hooks_facts)
  with u f1 show ?thesis
    by (simp add: ex_step_unobserved_facts)
qed

section \<open>A handoff that fails\<close>

text \<open>
  C6, as stated, fails. In the episode \<open>ex_task_pause_raises\<close> the only
  step is on a login page and \<open>agent.pause()\<close> raises; the run then
  returns, and the episode is finalized as a success with no error
  summary.
\<close>

theorem handoff_failure_counterexample:
  "agent_pause ex_step_pause_raises = Some (Exception ''pause failed'')
   \<and> hook_calls ex_task_pause_raises = [StepEnd ex_step_pause_raises]
   \<and> \<not> isl (execute_task ex_task_pause_raises ''Open Linear'' [])
   \<and> success (fst (projr (execute_task ex_task_pause_raises ''Open Linear'' [])))
   \<and> error_summary (fst (projr (execute_task ex_task_pause_raises ''Open Linear'' []))) = None"
  using ex_task_pause_raises_trace
  by (simp add: ex_step_pause_raises_facts ex_task_pause_raises_def)

text \<open>
  C6, amended. When \<open>agent.pause()\<close> or \<open>agent.resume()\<close> raises during the
  handoff, \<open>on_step_end\<close> catches the exception like any other: the counter
  is advanced, \<open>waiting_for_login\<close> is set, the notice and \<open>Capture error\<close>
  are printed, no record is appended and the latch stays unset; when it is
  \<open>agent.resume()\<close> that raised, the agent has been paused and is not
  resumed. The episode goes on: the next call of \<open>on_step_end\<close> on a login
  page attempts the handoff again, and, when it succeeds, appends the
  record of the manual login. The episode is finalized from the outcome
  of the run alone, whatever happened in the hooks: as a failure with the
  text of the exception when the run raises or when the truth value or the
  text of its result cannot be computed, as a success otherwise.
\<close>

theorem handoff_failure_is_swallowed:
  "(get_browser_state_summary env = Inr st \<and> get_current_page_title env = Inr ti
      \<and> is_login_page (current_url_of st) (current_title_of ti) \<and> \<not> login_handled s
      \<and> agent_pause env = Some e
     \<longrightarrow> on_step_end d env s
           = emit (Print (''Capture error: '' @ str_exn e))
               (login_notice (current_url_of st) (current_title_of ti)
                  (s\<lparr>count := count s + 1, waiting_for_login := True\<rparr>)))
   \<and> (get_browser_state_summary env = Inr st \<and> get_current_page_title env = Inr ti
      \<and> is_login_page (current_url_of st) (current_title_of ti) \<and> \<not> login_handled s
      \<and> agent_pause env = None \<and> read_input env = None \<and> agent_resume env = Some e
     \<longrightarrow> on_step_end d env s
           = emit (Print (''Capture error: '' @ str_exn e))
               (emit Input
                  (emit Pause
                     (login_notice (current_url_of st) (current_title_of ti)
                        (s\<lparr>count := count s + 1, waiting_for_login := True\<rparr>)))))
   \<and> (get_browser_state_summary env = Inr st \<and> get_current_page_title env = Inr ti
      \<and> is_login_page (current_url_of st) (current_title_of ti) \<and> \<not> login_handled s
      \<and> (agent_pause env = Some e
          \<or> (agent_pause env = None \<and> read_input env = None \<and> agent_resume env = Some e))
     \<longrightarrow> workflow (on_step_end d env s) = workflow s
         \<and> \<not> login_handled (on_step_end d env s)
         \<and> waiting_for_login (on_step_end d env s)
         \<and> count (on_step_end d env s) = count s + 1
         \<and> last (effects (on_step_end d env s)) = Print (''Capture error: '' @ str_exn e)
         \<and> count_list (effects (on_step_end d env s)) Resume = count_list (effects s) Resume
         \<and> (get_browser_state_summary env' = Inr st' \<and> get_current_page_title env' = Inr ti'
              \<and> is_login_page (current_url_of st') (current_title_of ti')
              \<and> agent_pause env' = None \<and> read_input env' = None \<and> agent_resume env' = None
            \<longrightarrow> steps (workflow (on_step_end d env' (on_step_end d env s)))
                   = steps (workflow s)
                     @ [manual_login_step (count s + 2) (now_timestamp env')
                          (current_url_of st') (current_title_of ti')]
                \<and> login_handled (on_step_end d env' (on_step_end d env s))))
   \<and> (execute_task tenv q fx = Inr (w, fx') \<longrightarrow> finalized_by tenv w)"
proof -
  have a: "on_step_end d env s
           = emit (Print (''Capture error: '' @ str_exn e))
               (login_notice (current_url_of st) (current_title_of ti)
                  (s\<lparr>count := count s + 1, waiting_for_login := True\<rparr>))"
    if "get_browser_state_summary env = Inr st" "get_current_page_title env = Inr ti"
      "is_login_page (current_url_of st) (current_title_of ti)" "\<not> login_handled s"
      "agent_pause env = Some e"
    by (rule on_step_end_pause_raised [OF that])
  have b: "on_step_end d env s
           = emit (Print (''Capture error: '' @ str_exn e))
               (emit Input
                  (emit Pause
                     (login_notice (current_url_of st) (current_title_of ti)
                        (s\<lparr>count := count s + 1, waiting_for_login := True\<rparr>))))"
    if "get_browser_state_summary env = Inr st" "get_current_page_title env = Inr ti"
      "is_login_page (current_url_of st) (current_title_of ti)" "\<not> login_handled s"
      "agent_pause env = None" "read_input env = None" "agent_resume env = Some e"
    by (rule on_step_end_resume_raised [OF that])
  have c: "workflow (on_step_end d env s) = workflow s
         \<and> \<not> login_handled (on_step_end d env s)
         \<and> waiting_for_login (on_step_end d env s)
         \<and> count (on_step_end d env s) = count s + 1
         \<and> last (effects (on_step_end d env s)) = Print (''Capture error: '' @ str_exn e)
         \<and> count_list (effects (on_step_end d env s)) Resume = count_list (effects s) Resume
         \<and> (get_browser_state_summary env' = Inr st' \<and> get_current_page_title env' = Inr ti'
              \<and> is_login_page (current_url_of st') (current_title_of ti')
              \<and> agent_pause env' = None \<and> read_input env' = None \<and> agent_resume env' = None
            \<longrightarrow> steps (workflow (on_step_end d env' (on_step_end d env s)))
                   = steps (workflow s)
                     @ [manual_login_step (count s + 2) (now_timestamp env')
                          (current_url_of st') (current_title_of ti')]
                \<and> login_handled (on_step_end d env' (on_step_end d env s)))"
    if h: "get_browser_state_summary env = Inr st" "get_current_page_title env = Inr ti"
      "is_login_page (current_url_of st) (current_title_of ti)" "\<not> login_handled s"
      "agent_pause env = Some e
          \<or> (agent_pause env = None \<and> read_input env = None \<and> agent_resume env = Some e)"
  proof -
    have "steps (workflow (on_step_end d env' (on_step_end d env s)))
                   = steps (workflow s)
                     @ [manual_login_step (count s + 2) (now_timestamp env')
                          (current_url_of st') (current_title_of ti')]
                \<and> login_handled (on_step_end d env' (on_step_end d env s))"
      if "get_browser_state_summary env' = Inr st'" "get_current_page_title env' = Inr ti'"
        "is_login_page (current_url_of st') (current_title_of ti')"
        "agent_pause env' = None" "read_input env' = None" "agent_resume env' = None"
      by (rule on_step_end_handoff_retried [OF h that])
    with on_step_end_handoff_raised [OF h, of d] on_step_end_not_resumed [OF h, of d]
    show ?thesis by blast
  qed
  have f: "finalized_by tenv w" if E: "execute_task tenv q fx = Inr (w, fx')"
    using execute_task_final_fields [OF E] by simp
  from a b c f show ?thesis by blast
qed

theorem handoff_failure_is_swallowed_witness:
  "agent_pause ex_step_pause_raises = Some (Exception ''pause failed'')
   \<and> steps (workflow (on_step_end ''out'' ex_step_pause_raises ex_hooks)) = []
   \<and> \<not> login_handled (on_step_end ''out'' ex_step_pause_raises ex_hooks)
   \<and> count_list (effects (on_step_end ''out'' ex_step_pause_raises ex_hooks)) Pause = 0
   \<and> last (effects (on_step_end ''out'' ex_step_pause_raises ex_hooks))
      = Print ''Capture error: pause failed''
   \<and> agent_pause ex_step_resume_raises = None
   \<and> agent_resume ex_step_resume_raises = Some (Exception ''resume failed'')
   \<and> steps (workflow (on_step_end ''out'' ex_step_resume_raises ex_hooks)) = []
   \<and> \<not> login_handled (on_step_end ''out'' ex_step_resume_raises ex_hooks)
   \<and> waiting_for_login (on_step_end ''out'' ex_step_resume_raises ex_hooks)
   \<and> count_list (effects (on_step_end ''out'' ex_step_resume_raises ex_hooks)) Pause = 1
   \<and> count_list (effects (on_step_end ''out'' ex_step_resume_raises ex_hooks)) Resume = 0
   \<and> last (effects (on_step_end ''out'' ex_step_resume_raises ex_hooks))
      = Print ''Capture error: resume failed''
   \<and> map (\<lambda>r. (step_number r, required_manual_login r))
        (steps (workflow (on_step_end ''out'' ex_step_login
                            (on_step_end ''out'' ex_step_resume_raises ex_hooks))))
      = [(2, True)]
   \<and> login_handled (on_step_end ''out'' ex_step_login
                       (on_step_end ''out'' ex_step_resume_raises ex_hooks))
   \<and> success (fst (projr (execute_task ex_task_pause_raises ''Open Linear'' [])))
   \<and> error_summary (fst (projr (execute_task ex_task_pause_raises ''Open Linear'' []))) = None
   \<and> success (fst (projr (execute_task ex_task_resume_raises ''Open Linear'' [])))
   \<and> error_summary (fst (projr (execute_task ex_task_resume_raises ''Open Linear'' []))) = None
   \<and> \<not> success (fst (projr (execute_task ex_task_raises ''Open Linear'' [])))
   \<and> error_summary (fst (projr (execute_task ex_task_raises ''Open Linear'' [])))
      = Some ''step budget exceeded''
   \<and> \<not> success (fst (projr (execute_task ex_task_no_text ''Open Linear'' [])))
   \<and> error_summary (fst (projr (execute_task ex_task_no_text ''Open Linear'' [])))
      = Some ''no text''"
proof -
  let ?q = "''Open Linear''"
  let ?p = "on_step_end ''out'' ex_step_pause_raises ex_hooks"
  let ?r = "on_step_end ''out'' ex_step_resume_raises ex_hooks"
  have fx0: "effects ex_hooks = []" and w0: "\<not> waiting_for_login ex_hooks"
    by (simp_all add: ex_hooks_def create_capture_hook_def)
  note pause = handoff_failure_is_swallowed
         [where env = ex_step_pause_raises and st = "Some ''https://linear.app/login''"
            and ti = "Some ''Team Board''" and s = ex_hooks
            and e = "Exception ''pause failed''" and d = "''out''"
            and tenv = ex_task_pause_raises and q = ?q and fx = "[]"
            and w = "fst (projr (execute_task ex_task_pause_raises ?q []))"
            and fx' = "snd (projr (execute_task ex_task_pause_raises ?q []))"]
  note resume = handoff_failure_is_swallowed
         [where env = ex_step_resume_raises and st = "Some ''https://linear.app/login''"
            and ti = "Some ''Team Board''" and s = ex_hooks
            and e = "Exception ''resume failed''" and d = "''out''"
            and env' = ex_step_login and st' = "Some ''https://linear.app/login''"
            and ti' = "Some ''Team Board''"
            and tenv = ex_task_resume_raises and q = ?q and fx = "[]"
            and w = "fst (projr (execute_task ex_task_resume_raises ?q []))"
            and fx' = "snd (projr (execute_task ex_task_resume_raises ?q []))"]
  note raises = handoff_failure_is_swallowed
         [where tenv = ex_task_raises and q = ?q and fx = "[]"
            and w = "fst (projr (execute_task ex_task_raises ?q []))"
            and fx' = "snd (projr (execute_task ex_task_raises ?q []))"]
  note no_text = handoff_failure_is_swallowed
         [where tenv = ex_task_no_text and q = ?q and fx = "[]"
            and w = "fst (projr (execute_task ex_task_no_text ?q []))"
            and fx' = "snd (projr (execute_task ex_task_no_text ?q []))"]
  have hp: "get_browser_state_summary ex_step_pause_raises = Inr (Some ''https://linear.app/login'')
      \<and> get_current_page_title ex_step_pause_raises = Inr (Some ''Team Board'')
      \<and> is_login_page (current_url_of (Some ''https://linear.app/login''))
            (current_title_of (Some ''Team Board''))
      \<and> \<not> login_handled ex_hooks
      \<and> agent_pause ex_step_pause_raises = Some (Exception ''pause failed'')"
    by (simp add: ex_step_pause_raises_facts ex_pages ex_hooks_facts)
  have hr: "get_browser_state_summary ex_step_resume_raises = Inr (Some ''https://linear.app/login'')
      \<and> get_current_page_title ex_step_resume_raises = Inr (Some ''Team Board'')
      \<and> is_login_page (current_url_of (Some ''https://linear.app/login''))
            (current_title_of (Some ''Team Board''))
      \<and> \<not> login_handled ex_hooks
      \<and> agent_pause ex_step_resume_raises = None \<and> read_input ex_step_resume_raises = None
      \<and> agent_resume ex_step_resume_raises = Some (Exception ''resume failed'')"
    by (simp add: ex_step_resume_raises_def ex_step_login_facts ex_pages ex_hooks_facts)
  have hl: "get_browser_state_summary ex_step_login = Inr (Some ''https://linear.app/login'')
      \<and> get_current_page_title ex_step_login = Inr (Some ''Team Board'')
      \<and> is_login_page (current_url_of (Some ''https://linear.app/login''))
            (current_title_of (Some ''Team Board''))
      \<and> agent_pause ex_step_login = None \<and> read_input ex_step_login = None
      \<and> agent_resume ex_step_login = None"
    by (simp add: ex_step_login_facts ex_pages)
  from pause hp
  have p: "?p = emit (Print (''Capture error: '' @ str_exn (Exception ''pause failed'')))
               (login_notice (current_url_of (Some ''https://linear.app/login''))
                  (current_title_of (Some ''Team Board''))
                  (ex_hooks\<lparr>count := count ex_hooks + 1, waiting_for_login := True\<rparr>))"
    by blast
  from resume hr
  have r: "?r = emit (Print (''Capture error: '' @ str_exn (Exception ''resume failed'')))
               (emit Input
                  (emit Pause
                     (login_notice (current_url_of (Some ''https://linear.app/login''))
                        (current_title_of (Some ''Team Board''))
                        (ex_hooks\<lparr>count := count ex_hooks + 1, waiting_for_login := True\<rparr>))))"
    by blast
  from resume hr hl
  have again: "steps (workflow (on_step_end ''out'' ex_step_login ?r))
        = steps (workflow ex_hooks)
          @ [manual_login_step (count ex_hooks + 2) (now_timestamp ex_step_login)
               (current_url_of (Some ''https://linear.app/login''))
               (current_title_of (Some ''Team Board''))]"
    and latch: "login_handled (on_step_end ''out'' ex_step_login ?r)"
    by blast+
  from p have p1: "steps (workflow ?p) = []" "\<not> login_handled ?p"
      "count_list (effects ?p) Pause = 0"
      "last (effects ?p) = Print ''Capture error: pause failed''"
    by (simp_all add: emit_def login_notice_def ex_hooks_facts fx0)
  from r have r1: "steps (workflow ?r) = []" "\<not> login_handled ?r" "waiting_for_login ?r"
      "count_list (effects ?r) Pause = 1" "count_list (effects ?r) Resume = 0"
      "last (effects ?r) = Print ''Capture error: resume failed''"
    by (simp_all add: emit_def login_notice_def ex_hooks_facts fx0)
  from again have a1: "map (\<lambda>r. (step_number r, required_manual_login r))
        (steps (workflow (on_step_end ''out'' ex_step_login ?r))) = [(2, True)]"
    by (simp add: ex_hooks_facts manual_login_step_def)
  have key: "can_finish ex_task_resume_raises"
    by (simp add: can_finish_def ex_task_resume_raises_def ex_task_def)
  from execute_task_total [OF key] obtain w fx'
    where "execute_task ex_task_resume_raises ?q [] = Inr (w, fx')" by blast
  then have E: "execute_task ex_task_resume_raises ?q []
        = Inr (fst (projr (execute_task ex_task_resume_raises ?q [])),
               snd (projr (execute_task ex_task_resume_raises ?q [])))"
    by simp
  have outs: "run_outcome ex_task_pause_raises
             = Inr \<lparr>truthy = Inr True, str_result = Inr ''done''\<rparr>"
    "run_outcome ex_task_resume_raises = Inr \<lparr>truthy = Inr True, str_result = Inr ''done''\<rparr>"
    by (simp_all add: ex_task_pause_raises_def ex_task_resume_raises_def ex_task_def)
  from pause ex_task_pause_raises_Inr
  have "finalized_by ex_task_pause_raises (fst (projr (execute_task ex_task_pause_raises ?q [])))"
    by blast
  then have t1: "success (fst (projr (execute_task ex_task_pause_raises ?q [])))"
      "error_summary (fst (projr (execute_task ex_task_pause_raises ?q []))) = None"
    by (simp_all add: finalized_by_def outs)
  from resume E
  have "finalized_by ex_task_resume_raises (fst (projr (execute_task ex_task_resume_raises ?q [])))"
    by blast
  then have t2: "success (fst (projr (execute_task ex_task_resume_raises ?q [])))"
      "error_summary (fst (projr (execute_task ex_task_resume_raises ?q []))) = None"
    by (simp_all add: finalized_by_def outs)
  from raises ex_task_raises_Inr
  have "finalized_by ex_task_raises (fst (projr (execute_task ex_task_raises ?q [])))"
    by blast
  then have t3: "\<not> success (fst (projr (execute_task ex_task_raises ?q [])))"
      "error_summary (fst (projr (execute_task ex_task_raises ?q [])))
       = Some ''step budget exceeded''"
    by (simp_all add: finalized_by_def ex_task_raises_facts)
  from no_text ex_task_no_text_Inr
  have "finalized_by ex_task_no_text (fst (projr (execute_task ex_task_no_text ?q [])))"
    by blast
  then have t4: "\<not> success (fst (projr (execute_task ex_task_no_text ?q [])))"
      "error_summary (fst (projr (execute_task ex_task_no_text ?q []))) = Some ''no text''"
    by (simp_all add: finalized_by_def ex_task_no_text_facts)
  from hp hr p1 r1 a1 latch t1 t2 t3 t4 show ?thesis by simp
qed

section \<open>The terminal fields\<close>





section \<open>The total duration\<close>

text \<open>
  C9, at an episode whose run raises. The handler sets \<open>completed_at\<close> and
  leaves \<open>total_duration_seconds\<close> unset, although \<open>started_at\<close> and
  \<open>completed_at\<close> are five seconds apart; the branch of a success computes
  the duration, three seconds in the episode \<open>ex_task\<close>.
\<close>

theorem failed_episode_has_no_duration:
  "run_outcome ex_task_raises = Inl (Exception ''step budget exceeded'')
   \<and> \<not> isl (execute_task ex_task_raises ''Open Linear'' [])
   \<and> started_at (fst (projr (execute_task ex_task_raises ''Open Linear'' []))) = 0
   \<and> completed_at (fst (projr (execute_task ex_task_raises ''Open Linear'' []))) = Some 5000000
   \<and> total_duration_seconds (fst (projr (execute_task ex_task_raises ''Open Linear'' []))) = None
   \<and> total_duration_seconds (fst (projr (execute_task ex_task ''Open Linear'' []))) = Some 3"
proof -
  from execute_task_raised [OF ex_task_raises_Inr ex_task_raises_facts(1)]
  have "started_at (fst (projr (execute_task ex_task_raises ''Open Linear'' []))) = 0"
    and "completed_at (fst (projr (execute_task ex_task_raises ''Open Linear'' []))) = Some 5000000"
    and "total_duration_seconds (fst (projr (execute_task ex_task_raises ''Open Linear'' []))) = None"
    by (simp_all add: hooks_workflow_fields ex_task_raises_facts execute_task_setup_facts
          new_workflow_fields)
  moreover from execute_task_returned [OF ex_task_Inr ex_task_facts(1), of True "''done''"]
  have "total_duration_seconds (fst (projr (execute_task ex_task ''Open Linear'' []))) = Some 3"
    by (simp add: hooks_workflow_fields ex_task_facts execute_task_setup_facts
          new_workflow_fields)
  moreover from ex_task_raises_Inr
  have "\<not> isl (execute_task ex_task_raises ''Open Linear'' [])"
    by (metis sum.disc(2))
  ultimately show ?thesis using ex_task_raises_facts(1) by blast
qed


section \<open>Result and error summary\<close>

text \<open>
  C10. When \<open>execute_task\<close> returns, exactly one of \<open>final_result\<close> and
  \<open>error_summary\<close> is set: \<open>final_result\<close> exactly when \<open>success\<close> is true,
  \<open>error_summary\<close> exactly when it is false. A run that raises gives a
  failure whose summary is the text of the exception; a run that returns
  gives a success whose result is the text of the returned value, or
  \<open>Completed\<close> when that value is false; and when converting the returned
  value raises, the episode is a failure with the text of that exception.
\<close>

theorem result_or_error_summary:
  assumes E: "execute_task env q fx = Inr (w, fx')"
  shows "(success w \<longleftrightarrow> final_result w \<noteq> None)
     \<and> (success w \<longleftrightarrow> error_summary w = None)
     \<and> (case run_outcome env of
           Inl e \<Rightarrow> \<not> success w \<and> error_summary w = Some (str_exn e)
         | Inr res \<Rightarrow>
             (case truthy res of
                Inl e \<Rightarrow> \<not> success w \<and> error_summary w = Some (str_exn e)
              | Inr b \<Rightarrow>
                  if b then
                    (case str_result res of
                       Inl e \<Rightarrow> \<not> success w \<and> error_summary w = Some (str_exn e)
                     | Inr t \<Rightarrow> success w \<and> final_result w = Some t)
                  else success w \<and> final_result w = Some ''Completed''))"
proof (cases "run_outcome env")
  case (Inl e)
  from execute_task_raised [OF E Inl] Inl show ?thesis
    by (simp add: hooks_workflow_fields)
next
  case out: (Inr res)
  show ?thesis
  proof (cases "truthy res")
    case (Inl e)
    with execute_task_conversion_raised [OF E out, of e] out show ?thesis
      by (simp add: hooks_workflow_fields)
  next
    case tr: (Inr b)
    show ?thesis
    proof (cases b)
      case False
      with execute_task_returned [OF E out tr, of undefined] out tr show ?thesis
        by (simp add: hooks_workflow_fields)
    next
      case True
      show ?thesis
      proof (cases "str_result res")
        case (Inl e)
        with execute_task_conversion_raised [OF E out, of e] out tr True show ?thesis
          by (simp add: hooks_workflow_fields)
      next
        case (Inr t)
        with execute_task_returned [OF E out tr, of t] out tr True show ?thesis
          by (simp add: hooks_workflow_fields)
      qed
    qed
  qed
qed

theorem result_or_error_summary_witness:
  "success (fst (projr (execute_task ex_task ''Open Linear'' [])))
   \<and> final_result (fst (projr (execute_task ex_task ''Open Linear'' []))) = Some ''done''
   \<and> error_summary (fst (projr (execute_task ex_task ''Open Linear'' []))) = None
   \<and> \<not> success (fst (projr (execute_task ex_task_raises ''Open Linear'' [])))
   \<and> final_result (fst (projr (execute_task ex_task_raises ''Open Linear'' []))) = None
   \<and> error_summary (fst (projr (execute_task ex_task_raises ''Open Linear'' [])))
      = Some ''step budget exceeded''"
proof -
  from result_or_error_summary [OF ex_task_Inr]
  have "success (fst (projr (execute_task ex_task ''Open Linear'' [])))
     \<and> final_result (fst (projr (execute_task ex_task ''Open Linear'' []))) = Some ''done''
     \<and> error_summary (fst (projr (execute_task ex_task ''Open Linear'' []))) = None"
    by (auto simp: ex_task_facts)
  moreover from result_or_error_summary [OF ex_task_raises_Inr]
  have "\<not> success (fst (projr (execute_task ex_task_raises ''Open Linear'' [])))
     \<and> final_result (fst (projr (execute_task ex_task_raises ''Open Linear'' []))) = None
     \<and> error_summary (fst (projr (execute_task ex_task_raises ''Open Linear'' [])))
        = Some ''step budget exceeded''"
    by (auto simp: ex_task_raises_facts)
  ultimately show ?thesis by blast
qed

section \<open>A batch with a failing episode\<close>

text \<open>
  C8, as stated, fails in one point. In a batch of two tasks whose first
  run raises an exception without a message, both traces are persisted and
  the first is a failure, but its error summary is the empty text.
\<close>

theorem empty_error_summary_counterexample:
  "run_outcome (ex_batch 0) = Inl (Exception [])
   \<and> fst (run_tasks ex_batch 0 [''Open Linear'', ''Open Notion''] []) = None
   \<and> map (\<lambda>pw. (success (snd pw), error_summary (snd pw)))
        (persisted (snd (run_tasks ex_batch 0 [''Open Linear'', ''Open Notion''] [])))
      = [(False, Some []), (True, None)]"
  using ex_batch_trace by (simp add: ex_batch_facts)

text \<open>
  C8, amended. The handler of \<open>execute_task\<close> catches what the run raises
  inside \<open>Exception\<close>, and nothing else: \<open>mkdir\<close> and \<open>Agent(...)\<close> stand
  before the \<open>try\<close> statement, \<open>write_text\<close> after it, and the loop of \<open>main\<close>
  has no handler. So the claim holds under a proviso, \<open>can_finish\<close>, on
  every task of the batch: the credential is set, the output directory and
  the agent are created, the run is not cut by an exception outside
  \<open>Exception\<close>, and the trace is written. Then the loop runs every task
  whatever the outcome of the runs before it and no exception leaves it;
  each task writes its own \<open>workflow.json\<close> into its output directory, in
  the order of the batch; what is written is the workflow that
  \<open>execute_task\<close> returns, with the records of its run, a failure whose
  error summary is the text of the exception (empty when the exception has
  no message) when the run or the conversion of its result raised, and a
  success otherwise. The same holds of \<open>main\<close> and its five tasks when the
  browser is created and closed. Without the proviso the batch is aborted:
  the loop is left at the first task that cannot finish, with the traces
  of the tasks before it and no other.
\<close>

theorem batch_persists_every_trace:
  "((\<forall>i < length ts. can_finish (envs (k + i)))
     \<longrightarrow> fst (run_tasks envs k ts fx) = None
         \<and> (\<exists>ws. length ws = length ts
               \<and> persisted (snd (run_tasks envs k ts fx)) = persisted fx @ ws
               \<and> (\<forall>i < length ts. persisted_trace_of (envs (k + i)) (ts ! i) (ws ! i))))
   \<and> (main_api_key menv \<noteq> None \<and> main_api_key menv \<noteq> Some []
        \<and> init_result menv = None \<and> kill_result menv = None
        \<and> (\<forall>i < length tasks. can_finish (task_envs menv i))
     \<longrightarrow> fst (main menv) = None
         \<and> length (persisted (snd (main menv))) = length tasks
         \<and> (\<forall>i < length tasks.
               persisted_trace_of (task_envs menv i) (tasks ! i) (persisted (snd (main menv)) ! i)))
   \<and> (j < length ts \<and> \<not> can_finish (envs (k + j)) \<and> (\<forall>i < j. can_finish (envs (k + i)))
     \<longrightarrow> fst (run_tasks envs k ts fx) \<noteq> None
         \<and> length (persisted (snd (run_tasks envs k ts fx))) = length (persisted fx) + j)"
proof -
  have b: "fst (main menv) = None
         \<and> length (persisted (snd (main menv))) = length tasks
         \<and> (\<forall>i < length tasks.
               persisted_trace_of (task_envs menv i) (tasks ! i) (persisted (snd (main menv)) ! i))"
    if key: "main_api_key menv \<noteq> None" "main_api_key menv \<noteq> Some []"
      and browser: "init_result menv = None" "kill_result menv = None"
      and keys: "\<forall>i < length tasks. can_finish (task_envs menv i)"
  proof -
    let ?fx0 = "[Print (nl @ ''Initializing shared Browser and LLM settings.'' @ nl)]"
    from keys have "\<forall>i < length tasks. can_finish (task_envs menv (0 + i))"
      by simp
    from run_tasks_persisted [OF this, of ?fx0] obtain ws
      where none: "fst (run_tasks (task_envs menv) 0 tasks ?fx0) = None"
        and len: "length ws = length tasks"
        and per: "persisted (snd (run_tasks (task_envs menv) 0 tasks ?fx0)) = persisted ?fx0 @ ws"
        and each: "\<forall>i < length tasks. persisted_trace_of (task_envs menv (0 + i)) (tasks ! i) (ws ! i)"
      by blast
    from persisted_main [OF none key browser refl] per
    have "fst (main menv) = None" and "persisted (snd (main menv)) = ws"
      by simp_all
    with len each show ?thesis by simp
  qed
  have c: "fst (run_tasks envs k ts fx) \<noteq> None
         \<and> length (persisted (snd (run_tasks envs k ts fx))) = length (persisted fx) + j"
    if "j < length ts" "\<not> can_finish (envs (k + j))" "\<forall>i < j. can_finish (envs (k + i))"
    by (rule run_tasks_aborted [OF that])
  from run_tasks_persisted [of ts envs k fx] b c show ?thesis by blast
qed

theorem batch_persists_every_trace_witness:
  "fst (run_tasks ex_batch 0 [''Open Linear'', ''Open Notion''] []) = None
   \<and> length (persisted (snd (run_tasks ex_batch 0 [''Open Linear'', ''Open Notion''] []))) = 2
   \<and> persisted_trace_of (ex_batch 0) ''Open Linear''
        (persisted (snd (run_tasks ex_batch 0 [''Open Linear'', ''Open Notion''] [])) ! 0)
   \<and> persisted_trace_of (ex_batch 1) ''Open Notion''
        (persisted (snd (run_tasks ex_batch 0 [''Open Linear'', ''Open Notion''] [])) ! 1)
   \<and> fst (main ex_main) = None
   \<and> length (persisted (snd (main ex_main))) = 5
   \<and> persisted_trace_of (ex_batch 0) (tasks ! 0) (persisted (snd (main ex_main)) ! 0)
   \<and> persisted_trace_of (ex_batch 4) (tasks ! 4) (persisted (snd (main ex_main)) ! 4)
   \<and> \<not> can_finish (ex_batch_unwritten 0)
   \<and> fst (run_tasks ex_batch_unwritten 0 [''Open Linear'', ''Open Notion''] [])
       = Some (Raised (Exception ''disk full''))
   \<and> persisted (snd (run_tasks ex_batch_unwritten 0 [''Open Linear'', ''Open Notion''] [])) = []"
proof -
  let ?ts = "[''Open Linear'', ''Open Notion'']"
  have h1: "\<forall>i < length ?ts. can_finish (ex_batch (0 + i))"
    using ex_batch_facts(3) by blast
  have h2: "main_api_key ex_main \<noteq> None \<and> main_api_key ex_main \<noteq> Some []
        \<and> init_result ex_main = None \<and> kill_result ex_main = None
        \<and> (\<forall>i < length tasks. can_finish (task_envs ex_main i))"
    using ex_batch_facts(3) by (simp add: ex_main_def)
  have h3: "0 < length ?ts \<and> \<not> can_finish (ex_batch_unwritten (0 + 0))
        \<and> (\<forall>i < (0 :: nat). can_finish (ex_batch_unwritten (0 + i)))"
    by (simp add: ex_batch_unwritten_def can_finish_def)
  note t = batch_persists_every_trace
             [where ts = ?ts and envs = ex_batch and k = 0 and fx = "[]" and menv = ex_main]
  note u = batch_persists_every_trace
             [where ts = ?ts and envs = ex_batch_unwritten and k = 0 and fx = "[]" and j = 0]
  from t h1 obtain ws
    where none: "fst (run_tasks ex_batch 0 ?ts []) = None"
      and len: "length ws = length ?ts"
      and per: "persisted (snd (run_tasks ex_batch 0 ?ts [])) = persisted [] @ ws"
      and each: "\<forall>i < length ?ts. persisted_trace_of (ex_batch (0 + i)) (?ts ! i) (ws ! i)"
    by blast
  from each [rule_format, of 0] each [rule_format, of 1]
  have "persisted_trace_of (ex_batch 0) ''Open Linear'' (ws ! 0)"
    and "persisted_trace_of (ex_batch 1) ''Open Notion'' (ws ! 1)"
    by simp_all
  with none len per
  have a: "fst (run_tasks ex_batch 0 ?ts []) = None
     \<and> length (persisted (snd (run_tasks ex_batch 0 ?ts []))) = 2
     \<and> persisted_trace_of (ex_batch 0) ''Open Linear'' (persisted (snd (run_tasks ex_batch 0 ?ts [])) ! 0)
     \<and> persisted_trace_of (ex_batch 1) ''Open Notion'' (persisted (snd (run_tasks ex_batch 0 ?ts [])) ! 1)"
    by simp
  have l5: "length tasks = 5" by (simp add: tasks_def)
  from t h2 have m: "fst (main ex_main) = None"
    and ml: "length (persisted (snd (main ex_main))) = length tasks"
    and me: "\<forall>i < length tasks.
               persisted_trace_of (task_envs ex_main i) (tasks ! i) (persisted (snd (main ex_main)) ! i)"
    by blast+
  from me [rule_format, of 0] me [rule_format, of 4] l5
  have "persisted_trace_of (task_envs ex_main 0) (tasks ! 0) (persisted (snd (main ex_main)) ! 0)"
    and "persisted_trace_of (task_envs ex_main 4) (tasks ! 4) (persisted (snd (main ex_main)) ! 4)"
    by simp_all
  then have b: "persisted_trace_of (ex_batch 0) (tasks ! 0) (persisted (snd (main ex_main)) ! 0)"
    and c: "persisted_trace_of (ex_batch 4) (tasks ! 4) (persisted (snd (main ex_main)) ! 4)"
    by (simp_all add: ex_main_def)
  from u h3
  have "length (persisted (snd (run_tasks ex_batch_unwritten 0 ?ts []))) = length (persisted []) + 0"
    by blast
  then have d: "persisted (snd (run_tasks ex_batch_unwritten 0 ?ts [])) = []"
    by simp
  have e: "fst (run_tasks ex_batch_unwritten 0 ?ts []) = Some (Raised (Exception ''disk full''))"
    unfolding ex_batch_unwritten_trace by (rule fst_conv)
  from h3 have f: "\<not> can_finish (ex_batch_unwritten 0)" by simp
  from a m ml l5 b c d e f show ?thesis by simp
qed

end
